theory Spec2Isabelle
  imports Main "HOL-Library.Sublist"
begin

section \<open>Python string primitives used by sharelatex-git.py\<close>

text \<open>
  Text is modelled as \<open>string\<close>: a list of characters with code points below 256.
  The functions below follow Python's \<open>str\<close> methods on that range. Files hold text,
  and the platform is POSIX, where a line feed is written as it is. What a shell command
  prints is \<open>bytes\<close>, and becomes text only where the script decodes it.
\<close>

definition py_isspace :: "char \<Rightarrow> bool" where
  \<comment> \<open>\<open>str.isspace\<close> on one character: tab, LF, VT, FF, CR, FS, GS, RS, US, space, NEL, NBSP.\<close>
  "py_isspace c \<longleftrightarrow> (of_char c :: nat) \<in> {9, 10, 11, 12, 13, 28, 29, 30, 31, 32, 133, 160}"

definition strip :: "string \<Rightarrow> string" where
  \<comment> \<open>\<open>s.strip()\<close>: whitespace removed at both ends.\<close>
  "strip s = rev (dropWhile py_isspace (rev (dropWhile py_isspace s)))"

definition py_lower_char :: "char \<Rightarrow> char" where
  "py_lower_char c =
     (let n = (of_char c :: nat)
      in if (65 \<le> n \<and> n \<le> 90) \<or> (192 \<le> n \<and> n \<le> 222 \<and> n \<noteq> 215)
         then char_of (n + 32) else c)"

definition lower :: "string \<Rightarrow> string" where
  \<comment> \<open>\<open>s.lower()\<close>\<close>
  "lower s = map py_lower_char s"

fun contains :: "string \<Rightarrow> string \<Rightarrow> bool" where
  \<comment> \<open>\<open>sub in s\<close> for strings: \<open>sub\<close> occurs as a contiguous run of \<open>s\<close>.\<close>
  "contains sub [] = (sub = [])"
| "contains sub (c # cs) = (prefix sub (c # cs) \<or> contains sub cs)"

definition is_alnum :: "char \<Rightarrow> bool" where
  \<comment> \<open>the character class \<open>[a-zA-Z0-9]\<close>\<close>
  "is_alnum c =
     (let n = (of_char c :: nat)
      in (48 \<le> n \<and> n \<le> 57) \<or> (65 \<le> n \<and> n \<le> 90) \<or> (97 \<le> n \<and> n \<le> 122))"

definition is_identifier :: "string \<Rightarrow> bool" where
  \<comment> \<open>the identifier invariant of the data model: the whole string matches \<open>[A-Za-z0-9]+\<close>\<close>
  "is_identifier s \<longleftrightarrow> s \<noteq> [] \<and> list_all is_alnum s"

fun universal_newlines :: "string \<Rightarrow> string" where
  \<comment> \<open>text-mode reading (\<open>newline=None\<close>): CR LF and a lone CR are read as LF\<close>
  "universal_newlines [] = []"
| "universal_newlines [c] = (if c = CHR 0x0D then [CHR 0x0A] else [c])"
| "universal_newlines (c # d # cs) =
     (if c = CHR 0x0D
      then (if d = CHR 0x0A then CHR 0x0A # universal_newlines cs
            else CHR 0x0A # universal_newlines (d # cs))
      else c # universal_newlines (d # cs))"

fun lines_from :: "string \<Rightarrow> string \<Rightarrow> string list" where
  \<comment> \<open>the lines of a text, each with its line end; the first argument is the line being read\<close>
  "lines_from cur [] = (if cur = [] then [] else [cur])"
| "lines_from cur (c # cs) =
     (if c = CHR 0x0A then (cur @ [c]) # lines_from [] cs else lines_from (cur @ [c]) cs)"

definition readlines :: "string \<Rightarrow> string list" where
  \<comment> \<open>\<open>f.readlines()\<close> on a file opened with \<open>open(name, 'r')\<close>\<close>
  "readlines content = lines_from [] (universal_newlines content)"

definition readline :: "string \<Rightarrow> string" where
  \<comment> \<open>the first \<open>f.readline()\<close> on a freshly opened file: the empty string at end of file\<close>
  "readline content = (case readlines content of [] \<Rightarrow> [] | l # _ \<Rightarrow> l)"

definition path_join :: "string \<Rightarrow> string \<Rightarrow> string" where
  \<comment> \<open>\<open>os.path.join(a, b)\<close> on POSIX\<close>
  "path_join a b =
     (if b \<noteq> [] \<and> hd b = CHR ''/'' then b
      else if a = [] \<or> last a = CHR ''/'' then a @ b
      else a @ ''/'' @ b)"

subsection \<open>The path component of \<open>urllib.parse.urlsplit\<close>\<close>

text \<open>
  \<open>urlsplit\<close> belongs to the Python standard library, not to the script. The model follows
  the algorithm of CPython 3.5: an optional scheme up to the first colon, a network location
  after \<open>//\<close> up to the next \<open>/\<close>, \<open>?\<close> or \<open>#\<close>, then the path up to the first \<open>#\<close> or
  \<open>?\<close>. \<open>None\<close> stands for the \<open>ValueError\<close> raised on an unbalanced IPv6 bracket.
\<close>

definition scheme_chars :: "char \<Rightarrow> bool" where
  "scheme_chars c \<longleftrightarrow> is_alnum c \<or> c = CHR ''+'' \<or> c = CHR ''-'' \<or> c = CHR ''.''"

definition is_digit :: "char \<Rightarrow> bool" where
  "is_digit c \<longleftrightarrow> 48 \<le> (of_char c :: nat) \<and> (of_char c :: nat) \<le> 57"

definition strip_scheme :: "string \<Rightarrow> string" where
  "strip_scheme url =
     (let pre = takeWhile (\<lambda>c. c \<noteq> CHR '':'') url;
          rest = drop (length pre + 1) url
      in if CHR '':'' \<in> set url \<and> pre \<noteq> [] then
           (if pre = ''http'' then rest
            else if list_all scheme_chars pre \<and> (rest = [] \<or> \<not> list_all is_digit rest)
                 then rest else url)
         else url)"

definition urlsplit_path :: "string \<Rightarrow> string option" where
  "urlsplit_path i =
     (let url = strip_scheme i;
          is_delim = (\<lambda>c. c = CHR ''/'' \<or> c = CHR ''?'' \<or> c = CHR ''#'');
          netloc = (if take 2 url = ''//'' then takeWhile (\<lambda>c. \<not> is_delim c) (drop 2 url) else []);
          url' = (if take 2 url = ''//'' then dropWhile (\<lambda>c. \<not> is_delim c) (drop 2 url) else url)
      in if (CHR ''['' \<in> set netloc \<and> CHR '']'' \<notin> set netloc)
            \<or> (CHR '']'' \<in> set netloc \<and> CHR ''['' \<notin> set netloc)
         then None
         else Some (takeWhile (\<lambda>c. c \<noteq> CHR ''#'' \<and> c \<noteq> CHR ''?'') url'))"

subsection \<open>The two regular expressions of \<open>extract_id_from_input\<close>\<close>

fun project_search :: "string \<Rightarrow> string option" where
  \<comment> \<open>\<open>re.compile("/project/([a-zA-Z0-9]*).*", re.IGNORECASE).search(path)\<close>: group 1 of the
      leftmost match, \<open>None\<close> when nothing matches. The group is the longest run of
      alphanumeric characters after the marker; the star lets it be empty. On text beyond
      code point 255, which is outside this model, \<open>IGNORECASE\<close> also lets the class match
      U+0130, U+0131, U+017F and U+212A.\<close>
  "project_search [] = None"
| "project_search (c # cs) =
     (if prefix ''/project/'' (lower (c # cs))
      then Some (takeWhile is_alnum (drop 9 (c # cs)))
      else project_search cs)"

definition match_alnum_star :: "string \<Rightarrow> string option" where
  \<comment> \<open>\<open>re.compile("[a-zA-Z0-9]*").match(i)\<close>: the text matched at the start of \<open>i\<close>. The star
      accepts the empty run, so there is a match object for every input.\<close>
  "match_alnum_star i = Some (takeWhile is_alnum i)"

section \<open>Effects: the world, the environment, results\<close>

datatype bytes =
    Utf8 string   \<comment> \<open>a \<open>bytes\<close> object that \<open>.decode('utf-8')\<close> turns into this text\<close>
  | NotUtf8       \<comment> \<open>a \<open>bytes\<close> object on which \<open>.decode('utf-8')\<close> raises\<close>

datatype 'a reply =
    Reply 'a      \<comment> \<open>the outside answers\<close>
  | NoReply       \<comment> \<open>the call never returns\<close>

datatype fatal =
    CmdFailed string int bytes
  | NoIdSupplied
  | RetrieveFailed
  | NotAZipFile
  | UnrecognizedUrlId string

datatype warning =
    CantEditGitignore string
  | ProblemCreatingStateFile
  | UnrecognizedId string

datatype event =
    Cmd string int bytes      \<comment> \<open>\<open>run_cmd\<close>: the shell command, its exit status, its output\<close>
  | Blocked string            \<comment> \<open>\<open>run_cmd\<close> started the command and \<open>wait()\<close> never returned\<close>
  | Err fatal                 \<comment> \<open>\<open>Logger().fatal_error\<close>\<close>
  | Warn warning              \<comment> \<open>a logged problem after which the run goes on\<close>
  | Prompt string string      \<comment> \<open>the conflict question printed: persisted id, supplied id\<close>
  | Answer string             \<comment> \<open>a line read by \<open>input\<close>\<close>
  | Remove string             \<comment> \<open>\<open>os.remove\<close> deleted the file\<close>
  | ListDir string
  | Move string string
  | RmDir string
  | Upload                    \<comment> \<open>\<open>sharelatex_push\<close> ran\<close>

datatype 'a res =
    Return 'a
  | Fatal       \<comment> \<open>\<open>fatal_error\<close>: the message is logged and \<open>exit()\<close> ends the process\<close>
  | Crash       \<comment> \<open>an exception nobody catches\<close>
  | Hang        \<comment> \<open>a call that never returns: the run goes no further\<close>

text \<open>
  The world of a run is the regular files the script names, by the path it names them with,
  and the trace of what the run did. A file can be read exactly when it is there. Shell
  commands are answered by the environment and leave the files of the model as they are.
  The script does one thing with the bytes a command prints: it decodes them, so a
  \<open>bytes\<close> object is modelled by what decoding makes of it.
\<close>

record world =
  files :: "string \<rightharpoonup> string"    \<comment> \<open>regular files by the path the script uses, with their text\<close>
  trace :: "event list"            \<comment> \<open>what the run did so far, oldest first\<close>

definition emit :: "event \<Rightarrow> world \<Rightarrow> world" where
  "emit ev w = w\<lparr>trace := trace w @ [ev]\<rparr>"

definition fatal_error :: "fatal \<Rightarrow> world \<Rightarrow> 'a res \<times> world" where
  "fatal_error f w = (Fatal, emit (Err f) w)"

definition bind :: "'a res \<times> world \<Rightarrow> ('a \<Rightarrow> world \<Rightarrow> 'b res \<times> world) \<Rightarrow> 'b res \<times> world" where
  \<comment> \<open>sequencing: a fatal error, a crash or a call that never returns ends the run where it
      happens\<close>
  "bind m k =
     (case m of (Return x, w) \<Rightarrow> k x w | (Fatal, w) \<Rightarrow> (Fatal, w) | (Crash, w) \<Rightarrow> (Crash, w)
      | (Hang, w) \<Rightarrow> (Hang, w))"

definition decode_utf8 :: "bytes \<Rightarrow> world \<Rightarrow> string res \<times> world" where
  \<comment> \<open>\<open>b.decode('utf-8')\<close>: nobody catches the \<open>UnicodeDecodeError\<close>\<close>
  "decode_utf8 b w = (case b of Utf8 s \<Rightarrow> (Return s, w) | NotUtf8 \<Rightarrow> (Crash, w))"

section \<open>Identifier extraction\<close>

definition extract_id_from_input :: "string \<Rightarrow> world \<Rightarrow> string option res \<times> world" where
  "extract_id_from_input i w =
     (if contains ''http:'' (lower i) \<or> contains ''https:'' (lower i) then
        (case urlsplit_path i of
           None \<Rightarrow> fatal_error (UnrecognizedUrlId i) w
         | Some path \<Rightarrow>
             (case project_search path of
                None \<Rightarrow> fatal_error (UnrecognizedUrlId i) w
              | Some g \<Rightarrow> (Return (Some g), w)))
      else
        (if match_alnum_star i \<noteq> None then (Return (Some i), w)
         else (Return None, emit (Warn (UnrecognizedId i)) w)))"

section \<open>The environment of a run\<close>

text \<open>
  Everything the script asks of the outside is a field of the environment: the shell, the
  network, the archive library, the directory operations, the clock and the operator. A
  theorem that holds for every environment holds whatever these answer.
\<close>

datatype zip_result =
    Extracted "string \<rightharpoonup> string"       \<comment> \<open>\<open>extractall\<close> wrote these entries\<close>
  | BadZipFile "string \<rightharpoonup> string"      \<comment> \<open>\<open>BadZipFile\<close> was raised, after these entries were written\<close>
  | ExtractFailed "string \<rightharpoonup> string"   \<comment> \<open>another exception was raised, after these entries\<close>

record struct_time =
  tm_year :: nat
  tm_mon :: nat
  tm_mday :: nat
  tm_hour :: nat
  tm_min :: nat
  tm_sec :: nat

record env =
  shell :: "event list \<Rightarrow> string \<Rightarrow> (int \<times> bytes) reply"
    \<comment> \<open>exit status and combined output of a shell command, given what the run did before;
        \<open>NoReply\<close> when \<open>process.wait()\<close> never returns: the child does not end, or it
        prints more than the pipe holds and nobody reads it\<close>
  urlretrieve :: "string \<Rightarrow> string option reply"
    \<comment> \<open>the payload downloaded from a URL; \<open>None\<close> when the download raises\<close>
  unzip :: "string \<Rightarrow> zip_result"
    \<comment> \<open>what \<open>ZipFile(...).extractall()\<close> does with a payload\<close>
  listdir :: "string \<Rightarrow> string list option"
    \<comment> \<open>\<open>os.listdir\<close>; \<open>None\<close> when it raises\<close>
  can_move :: "string \<Rightarrow> bool"
  can_rmdir :: "string \<Rightarrow> bool"
  lookup_title :: "string \<Rightarrow> string option reply"
    \<comment> \<open>the title found on the page at a URL; \<open>None\<close> for any failure of the request or
        of the pattern\<close>
  clock :: "event list \<Rightarrow> struct_time"
    \<comment> \<open>local time when asked\<close>
  can_write :: "string \<Rightarrow> bool"
    \<comment> \<open>whether \<open>open(path, 'a')\<close> or \<open>open(path, 'w')\<close> succeeds\<close>
  answers :: "string list"
    \<comment> \<open>the lines the operator types, in order\<close>
  upload :: "unit option reply"
    \<comment> \<open>the upload to the hosting service: it returns, or raises (\<open>None\<close>), or never
        returns\<close>

section \<open>Timestamps\<close>

definition digit_char :: "nat \<Rightarrow> char" where
  "digit_char d = char_of (48 + d)"

fun digits :: "nat \<Rightarrow> string" where
  "digits n = (if n < 10 then [digit_char n] else digits (n div 10) @ [digit_char (n mod 10)])"

declare digits.simps [simp del]

definition pad2 :: "nat \<Rightarrow> string" where
  \<comment> \<open>a decimal number zero-padded to two digits: \<open>%m\<close>, \<open>%d\<close>, \<open>%H\<close>, \<open>%M\<close>, \<open>%S\<close>\<close>
  "pad2 n = (if n < 10 then CHR ''0'' # digits n else digits n)"

definition strftime :: "struct_time \<Rightarrow> string" where
  \<comment> \<open>\<open>time.strftime('%Y/%m/%d %H:%M:%S')\<close> of the local time \<open>t\<close>; the year is printed
      in full, without padding\<close>
  "strftime t =
     digits (tm_year t) @ ''/'' @ pad2 (tm_mon t) @ ''/'' @ pad2 (tm_mday t) @ '' ''
       @ pad2 (tm_hour t) @ '':'' @ pad2 (tm_min t) @ '':'' @ pad2 (tm_sec t)"

definition get_timestamp :: "env \<Rightarrow> world \<Rightarrow> string" where
  "get_timestamp e w = strftime (clock e (trace w))"

section \<open>Shell commands and the git helpers\<close>

definition run_cmd :: "env \<Rightarrow> string \<Rightarrow> bool \<Rightarrow> world \<Rightarrow> bytes res \<times> world" where
  "run_cmd e cmd allow_fail w =
     (case shell e (trace w) cmd of
        NoReply \<Rightarrow> (Hang, emit (Blocked cmd) w)
      | Reply (status, out) \<Rightarrow>
          (let w' = emit (Cmd cmd status out) w
           in if \<not> allow_fail \<and> status \<noteq> 0 then fatal_error (CmdFailed cmd status out) w'
              else (Return out, w')))"

definition init_git_repository :: "env \<Rightarrow> world \<Rightarrow> unit res \<times> world" where
  "init_git_repository e w = bind (run_cmd e ''git init'' False w) (\<lambda>_ w. (Return (), w))"

definition get_base_git_root :: "env \<Rightarrow> world \<Rightarrow> string res \<times> world" where
  "get_base_git_root e w =
     bind (run_cmd e ''git rev-parse --show-toplevel'' False w) (\<lambda>out w.
     bind (decode_utf8 out w) (\<lambda>text w. (Return (strip text), w)))"

definition get_git_ignore :: "env \<Rightarrow> world \<Rightarrow> string res \<times> world" where
  "get_git_ignore e w =
     bind (get_base_git_root e w) (\<lambda>git_base w. (Return (path_join git_base ''.gitignore''), w))"

definition is_git_repository :: "env \<Rightarrow> world \<Rightarrow> bool res \<times> world" where
  "is_git_repository e w =
     bind (run_cmd e ''git status'' True w) (\<lambda>out w.
     bind (decode_utf8 out w) (\<lambda>status w.
       (Return (\<not> contains ''not a git repository'' (lower status)), w)))"

definition ensure_git_repository_started :: "env \<Rightarrow> world \<Rightarrow> unit res \<times> world" where
  "ensure_git_repository_started e w =
     bind (is_git_repository e w)
       (\<lambda>is_repo w. if \<not> is_repo then init_git_repository e w else (Return (), w))"

section \<open>The exclusion file\<close>

definition required_entries :: "string list" where
  "required_entries = [''sharelatex-git.py'', ''sharelatex-git'', ''.sharelatex-git'']"

definition gitignore_update :: "string option \<Rightarrow> string" where
  \<comment> \<open>the text of the exclusion file after the update, from its text before (\<open>None\<close>: no
      file). The lines are read once, stripped; each required entry that is not among them
      is appended with a line feed.\<close>
  "gitignore_update previous =
     (let lines = (case previous of None \<Rightarrow> [] | Some content \<Rightarrow> map strip (readlines content));
          old = (case previous of None \<Rightarrow> [] | Some content \<Rightarrow> content)
      in old @ concat (map (\<lambda>s. s @ [CHR 0x0A]) (filter (\<lambda>s. s \<notin> set lines) required_entries)))"

definition ensure_gitignore_is_fine :: "env \<Rightarrow> world \<Rightarrow> unit res \<times> world" where
  "ensure_gitignore_is_fine e w =
     bind (get_git_ignore e w)
       (\<lambda>git_ignore w.
          if can_write e git_ignore
          then (Return (), w\<lparr>files := (files w)(git_ignore \<mapsto> gitignore_update (files w git_ignore))\<rparr>)
          else (Return (), emit (Warn (CantEditGitignore git_ignore)) w))"

section \<open>Committing\<close>

definition truthy :: "string option \<Rightarrow> bool" where
  \<comment> \<open>Python's truth value of a value that is \<open>None\<close> or a string\<close>
  "truthy x = (case x of None \<Rightarrow> False | Some s \<Rightarrow> s \<noteq> [])"

definition commit_command :: "string \<Rightarrow> string option \<Rightarrow> string \<Rightarrow> string" where
  \<comment> \<open>the shell command that \<open>commit_all_changes\<close> builds, from the message, the title and
      the timestamp\<close>
  "commit_command message title ts =
     (let cmd = (if truthy title
                 then ''git commit -m'' @ [CHR 0x22] @ ''[sharelatex-git-integration '' @ the title
                        @ '' '' @ ts @ '']''
                 else ''git commit -m'' @ [CHR 0x22] @ ''[sharelatex-git-integration '' @ ts @ '']'')
      in if message \<noteq> [] then cmd @ '' '' @ message @ [CHR 0x22] else cmd @ [CHR 0x22])"

definition commit_all_changes :: "env \<Rightarrow> string \<Rightarrow> string option \<Rightarrow> world \<Rightarrow> unit res \<times> world" where
  "commit_all_changes e message title w =
     bind (run_cmd e ''git add -A .'' False w) (\<lambda>_ w.
     bind (get_git_ignore e w) (\<lambda>git_ignore w.
     bind (run_cmd e (''git add -A '' @ git_ignore) False w) (\<lambda>_ w.
     bind (run_cmd e (commit_command message title (get_timestamp e w)) False w) (\<lambda>_ w.
     (Return (), w)))))"

definition clean_phrase :: string where
  "clean_phrase = ''nothing to commit, working directory clean''"

definition status_says_changed :: "string \<Rightarrow> bool" where
  \<comment> \<open>the test of \<open>files_changed\<close> on the decoded output of the status query\<close>
  "status_says_changed out \<longleftrightarrow> \<not> contains clean_phrase (lower out)"

definition files_changed :: "env \<Rightarrow> world \<Rightarrow> bool res \<times> world" where
  "files_changed e w =
     bind (run_cmd e ''git status .'' False w) (\<lambda>out w.
     bind (decode_utf8 out w) (\<lambda>text w. (Return (status_says_changed text), w)))"

definition git_push :: "env \<Rightarrow> world \<Rightarrow> unit res \<times> world" where
  "git_push e w = bind (run_cmd e ''git push origin master'' False w) (\<lambda>_ w. (Return (), w))"

definition sharelatex_push :: "env \<Rightarrow> world \<Rightarrow> unit res \<times> world" where
  \<comment> \<open>the experimental upload, kept opaque: it runs, and returns, raises or never returns\<close>
  "sharelatex_push e w =
     (case upload e of
        Reply (Some u) \<Rightarrow> (Return (), emit Upload w)
      | Reply None \<Rightarrow> (Crash, emit Upload w)
      | NoReply \<Rightarrow> (Hang, emit Upload w))"

section \<open>Fetching the archive\<close>

definition os_remove :: "string \<Rightarrow> world \<Rightarrow> unit res \<times> world" where
  \<comment> \<open>\<open>os.remove(path)\<close>: raises when there is no such file\<close>
  "os_remove path w =
     (if files w path = None then (Crash, w)
      else (Return (), emit (Remove path) (w\<lparr>files := (files w)(path := None)\<rparr>)))"

definition overlay :: "(string \<rightharpoonup> string) \<Rightarrow> world \<Rightarrow> world" where
  \<comment> \<open>extraction overlays the entries onto what is there\<close>
  "overlay entries w = w\<lparr>files := files w ++ entries\<rparr>"

definition move_up :: "string \<Rightarrow> world \<Rightarrow> world" where
  \<comment> \<open>the entry \<open>name\<close> of the folder \<open>LaTeX\<close>, a file or a directory with all below it,
      now lives in the current directory\<close>
  "move_up name w =
     w\<lparr>files :=
         (\<lambda>p. if p = name \<or> prefix (name @ ''/'') p then files w (path_join ''LaTeX'' p)
              else if p = path_join ''LaTeX'' name \<or> prefix (path_join ''LaTeX'' name @ ''/'') p
                   then None
              else files w p)\<rparr>"

fun move_all :: "env \<Rightarrow> string list \<Rightarrow> world \<Rightarrow> unit res \<times> world" where
  \<comment> \<open>the loop over \<open>os.listdir('LaTeX')\<close>; \<open>shutil.move\<close> raises when the destination
      exists\<close>
  "move_all e [] w = (Return (), w)"
| "move_all e (filename # rest) w =
     (let src = path_join ''LaTeX'' filename
      in if files w filename \<noteq> None \<or> \<not> can_move e src then (Crash, w)
         else move_all e rest (emit (Move src ''.'') (move_up filename w)))"

definition move_out_of_LaTeX :: "env \<Rightarrow> world \<Rightarrow> unit res \<times> world" where
  "move_out_of_LaTeX e w =
     (case listdir e ''LaTeX'' of
        None \<Rightarrow> (Crash, emit (ListDir ''LaTeX'') w)
      | Some names \<Rightarrow>
          bind (move_all e names (emit (ListDir ''LaTeX'') w)) (\<lambda>_ w.
            if can_rmdir e ''LaTeX'' then (Return (), emit (RmDir ''LaTeX'') w) else (Crash, w)))"

definition fetch_updates :: "env \<Rightarrow> string \<Rightarrow> bool \<Rightarrow> world \<Rightarrow> string option res \<times> world" where
  "fetch_updates e sharelatex_id skip_LaTeX_folder w =
     (let file_name = ''sharelatex.zip'';
          final_url = ''https://www.sharelatex.com/project/'' @ sharelatex_id @ ''/download/zip''
      in case urlretrieve e final_url of
           NoReply \<Rightarrow> (Hang, w)
         | Reply None \<Rightarrow> fatal_error RetrieveFailed w
         | Reply (Some payload) \<Rightarrow>
             (let w1 = w\<lparr>files := (files w)(file_name \<mapsto> payload)\<rparr>
              in case unzip e payload of
                   BadZipFile part \<Rightarrow>
                     bind (os_remove file_name (overlay part w1)) (\<lambda>_ w. fatal_error NotAZipFile w)
                 | ExtractFailed part \<Rightarrow> (Crash, overlay part w1)
                 | Extracted entries \<Rightarrow>
                     bind (os_remove file_name (overlay entries w1)) (\<lambda>_ w.
                     bind (if skip_LaTeX_folder then move_out_of_LaTeX e w else (Return (), w)) (\<lambda>_ w.
                     (case lookup_title e (''https://www.sharelatex.com/project/'' @ sharelatex_id) of
                        NoReply \<Rightarrow> (Hang, w)
                      | Reply title \<Rightarrow> (Return title, w))))))"

section \<open>The persisted identifier\<close>

definition state_file :: string where
  "state_file = ''.sharelatex-git''"

definition read_saved_sharelatex_document :: "world \<Rightarrow> string option" where
  "read_saved_sharelatex_document w =
     (case files w state_file of None \<Rightarrow> None | Some content \<Rightarrow> Some (strip (readline content)))"

definition write_saved_sharelatex_document :: "env \<Rightarrow> string \<Rightarrow> world \<Rightarrow> unit res \<times> world" where
  "write_saved_sharelatex_document e ident w =
     (if can_write e state_file
      then (Return (), w\<lparr>files := (files w)(state_file \<mapsto> ident @ [CHR 0x0A])\<rparr>)
      else (Return (), emit (Warn ProblemCreatingStateFile) w))"

fun conflict_loop :: "string \<Rightarrow> string \<Rightarrow> string list \<Rightarrow> world \<Rightarrow> string res \<times> world" where
  \<comment> \<open>the \<open>while True\<close> of \<open>determine_id\<close> over the lines the operator types; it returns the
      answer that ended it. With no line left, \<open>input\<close> raises.\<close>
  "conflict_loop saved_id ident [] w = (Crash, emit (Prompt saved_id ident) w)"
| "conflict_loop saved_id ident (line # rest) w =
     (let w' = emit (Answer line) (emit (Prompt saved_id ident) w);
          ans = (if strip line = [] then ''2'' else line)
      in if strip ans = ''1'' \<or> strip ans = ''2'' then (Return ans, w')
         else conflict_loop saved_id ident rest w')"

definition determine_id :: "env \<Rightarrow> string option \<Rightarrow> world \<Rightarrow> string res \<times> world" where
  "determine_id e ident w =
     (let saved_id = read_saved_sharelatex_document w
      in if truthy ident \<and> truthy saved_id then
           (if ident \<noteq> saved_id then
              bind (conflict_loop (the saved_id) (the ident) (answers e) w) (\<lambda>ans w.
                (Return (if strip ans = ''1'' then the saved_id else the ident), w))
            else (Return (the ident), w))
         else if \<not> truthy saved_id \<and> \<not> truthy ident then fatal_error NoIdSupplied w
         else if truthy saved_id then (Return (the saved_id), w)
         else (Return (the ident), w))"

section \<open>The main flow\<close>

definition go :: "env \<Rightarrow> string option \<Rightarrow> string \<Rightarrow> bool \<Rightarrow> bool \<Rightarrow> bool \<Rightarrow> world \<Rightarrow> unit res \<times> world" where
  "go e ident message push sharelatex_push_flag dont_commit w =
     bind (determine_id e ident w) (\<lambda>ident w.
     bind (ensure_git_repository_started e w) (\<lambda>_ w.
     bind (ensure_gitignore_is_fine e w) (\<lambda>_ w.
     bind (fetch_updates e ident False w) (\<lambda>project_title w.
     bind (if \<not> dont_commit then
             bind (files_changed e w) (\<lambda>changed w.
               if changed then
                 bind (commit_all_changes e message project_title w) (\<lambda>_ w.
                   if push then git_push e w else (Return (), w))
               else (Return (), w))
           else (Return (), w)) (\<lambda>_ w.
     bind (if sharelatex_push_flag then sharelatex_push e w else (Return (), w)) (\<lambda>_ w.
     write_saved_sharelatex_document e ident w))))))"

definition start :: "(string \<rightharpoonup> string) \<Rightarrow> world" where
  \<comment> \<open>the world when the process starts: the files on disk, nothing done yet\<close>
  "start fs = \<lparr>files = fs, trace = []\<rparr>"

section \<open>A sample environment\<close>

text \<open>
  A concrete environment on which the theorems below are instantiated: a repository rooted
  at \<open>/repo\<close>, a status query that prints a given text, a push that ends with a given
  exit status, and a download whose unpacking has a given outcome.
\<close>

definition sample_shell :: "string \<Rightarrow> int \<Rightarrow> event list \<Rightarrow> string \<Rightarrow> (int \<times> bytes) reply" where
  "sample_shell status_out push_status tr cmd =
     (if cmd = ''git rev-parse --show-toplevel'' then Reply (0, Utf8 (''/repo'' @ [CHR 0x0A]))
      else if cmd = ''git status .'' then Reply (0, Utf8 status_out)
      else if cmd = ''git push origin master'' then Reply (push_status, Utf8 [])
      else Reply (0, Utf8 []))"

definition sample_time :: struct_time where
  "sample_time = \<lparr>tm_year = 2024, tm_mon = 1, tm_mday = 2, tm_hour = 3, tm_min = 4, tm_sec = 5\<rparr>"

definition sample_env :: "string \<Rightarrow> int \<Rightarrow> zip_result \<Rightarrow> env" where
  "sample_env status_out push_status z =
     \<lparr>shell = sample_shell status_out push_status,
      urlretrieve = (\<lambda>url. Reply (Some ''PK'')),
      unzip = (\<lambda>payload. z),
      listdir = (\<lambda>d. Some [''main.tex'']),
      can_move = (\<lambda>p. True),
      can_rmdir = (\<lambda>p. True),
      lookup_title = (\<lambda>url. Reply (Some ''Thesis'')),
      clock = (\<lambda>tr. sample_time),
      can_write = (\<lambda>p. True),
      answers = [],
      upload = Reply (Some ())\<rparr>"

definition sample_archive :: "string \<rightharpoonup> string" where
  "sample_archive = [''LaTeX/main.tex'' \<mapsto> ''x'']"

definition no_files :: "string \<rightharpoonup> string" where
  "no_files = Map.empty"

definition sample_saved :: "string \<rightharpoonup> string" where
  \<comment> \<open>a working directory whose state file holds \<open>abc123\<close>\<close>
  "sample_saved = [''.sharelatex-git'' \<mapsto> ''abc123'' @ [CHR 0x0A]]"

definition clean_output :: string where
  \<comment> \<open>a status text of a clean working directory, the phrase with a capital letter\<close>
  "clean_output = ''On branch master'' @ [CHR 0x0A]
      @ ''Nothing to commit, working directory clean'' @ [CHR 0x0A]"

definition sample_unterminated :: "string \<rightharpoonup> string" where
  \<comment> \<open>an exclusion file whose only line has no line end\<close>
  "sample_unterminated = [''/repo/.gitignore'' \<mapsto> ''foo'']"

definition failed_status_output :: string where
  \<comment> \<open>what a status query prints when it fails\<close>
  "failed_status_output = ''fatal: unable to read tree'' @ [CHR 0x0A]"

definition status_env :: "(int \<times> bytes) reply \<Rightarrow> env" where
  \<comment> \<open>the sample environment, but the scoped status query has the given outcome\<close>
  "status_env r =
     (sample_env [] 0 (Extracted sample_archive))
       \<lparr>shell := (\<lambda>tr cmd. if cmd = ''git status .'' then r else sample_shell [] 0 tr cmd)\<rparr>"

section \<open>Properties of traces\<close>

definition command_of :: "event \<Rightarrow> string option" where
  \<comment> \<open>the shell command an event stands for, whether it came back or not\<close>
  "command_of ev = (case ev of Cmd c st out \<Rightarrow> Some c | Blocked c \<Rightarrow> Some c | _ \<Rightarrow> None)"

definition is_staging :: "event \<Rightarrow> bool" where
  "is_staging ev = (case command_of ev of Some c \<Rightarrow> prefix ''git add'' c | None \<Rightarrow> False)"

definition is_commit :: "event \<Rightarrow> bool" where
  "is_commit ev = (case command_of ev of Some c \<Rightarrow> prefix ''git commit'' c | None \<Rightarrow> False)"

definition is_scoped_status :: "event \<Rightarrow> bool" where
  "is_scoped_status ev = (case command_of ev of Some c \<Rightarrow> c = ''git status .'' | None \<Rightarrow> False)"

definition is_normalization :: "event \<Rightarrow> bool" where
  "is_normalization ev =
     (case ev of ListDir d \<Rightarrow> True | Move a b \<Rightarrow> True | RmDir d \<Rightarrow> True | _ \<Rightarrow> False)"

definition benign :: "event \<Rightarrow> bool" where
  \<comment> \<open>neither a shell command nor a step of the normalization\<close>
  "benign ev = (case ev of Cmd c st out \<Rightarrow> False | Blocked c \<Rightarrow> False | ListDir d \<Rightarrow> False
                 | Move a b \<Rightarrow> False | RmDir d \<Rightarrow> False | _ \<Rightarrow> True)"

definition adds_only :: "(event \<Rightarrow> bool) \<Rightarrow> world \<Rightarrow> world \<Rightarrow> bool" where
  "adds_only G w w' \<longleftrightarrow> (\<exists>evs. trace w' = trace w @ evs \<and> list_all G evs)"

definition clean_status :: "event \<Rightarrow> bool" where
  \<comment> \<open>a scoped status query that came back with a text holding the clean phrase\<close>
  "clean_status ev =
     (case ev of
        Cmd c st out \<Rightarrow>
          c = ''git status .''
          \<and> (case out of Utf8 text \<Rightarrow> \<not> status_says_changed text | NotUtf8 \<Rightarrow> False)
      | _ \<Rightarrow> False)"

definition quiet :: "event \<Rightarrow> bool" where
  "quiet ev \<longleftrightarrow> \<not> is_commit ev \<and> \<not> is_scoped_status ev"

definition consistent :: "event list \<Rightarrow> bool" where
  "consistent tr \<longleftrightarrow> list_ex clean_status tr \<longrightarrow> \<not> list_ex is_commit tr"

section \<open>The documented commit message\<close>







section \<open>The shell's reading of the commit command\<close>

text \<open>
  \<open>run_cmd\<close> hands the command text to \<open>/bin/sh -c\<close>, and the script escapes nothing in it.
  What git receives as the value of \<open>-m\<close> is what the shell makes of the word after
  \<open>git commit\<close>. The shell is not part of the script; the model covers the words made of
  double-quoted parts that hold no dollar sign, backquote or backslash, whose value is the
  parts joined. \<open>None\<close> is every other command: there the shell expands, splits, or
  reports a syntax error.
\<close>

definition shell_plain :: "string \<Rightarrow> bool" where
  \<comment> \<open>a text with none of the characters that are special between double quotes\<close>
  "shell_plain s \<longleftrightarrow>
     list_all (\<lambda>c. c \<noteq> CHR 0x22 \<and> c \<noteq> CHR ''$'' \<and> c \<noteq> CHR 0x60 \<and> c \<noteq> CHR 0x5C) s"



section \<open>What each operation adds to the trace\<close>

lemma adds_only_refl [simp]: "adds_only G w w"
  by (simp add: adds_only_def)

lemma adds_only_trans: "adds_only G w w1 \<Longrightarrow> adds_only G w1 w2 \<Longrightarrow> adds_only G w w2"
  by (auto simp: adds_only_def)

lemma adds_only_files [simp]: "adds_only G w (w1\<lparr>files := f\<rparr>) = adds_only G w w1"
  by (simp add: adds_only_def)

lemma adds_only_emit: "G ev \<Longrightarrow> adds_only G w w1 \<Longrightarrow> adds_only G w (emit ev w1)"
  by (auto simp: adds_only_def emit_def)

lemma adds_only_fatal: "G (Err f) \<Longrightarrow> adds_only G w w1 \<Longrightarrow> adds_only G w (snd (fatal_error f w1))"
  by (simp add: fatal_error_def adds_only_emit)

lemma adds_only_bind:
  assumes "adds_only G w (snd m)" and "\<And>x w1. adds_only G w1 (snd (k x w1))"
  shows "adds_only G w (snd (bind m k))"
proof (cases m)
  case (Pair r w1)
  then show ?thesis
    using assms adds_only_trans [of G w w1] by (cases r) (auto simp: bind_def)
qed

lemma adds_only_decode [simp]: "adds_only G w (snd (decode_utf8 b w1)) = adds_only G w w1"
  by (cases b) (simp_all add: decode_utf8_def)

lemma run_cmd_adds:
  assumes b: "\<And>ev. benign ev \<Longrightarrow> G ev" and c: "\<And>ev. command_of ev = Some cmd \<Longrightarrow> G ev"
  shows "adds_only G w (snd (run_cmd e cmd af w))"
proof -
  have "G (Cmd cmd st out)" "G (Blocked cmd)" "G (Err f)" for st out f
    by (simp_all add: b c benign_def command_of_def)
  then show ?thesis
    by (auto simp: run_cmd_def Let_def split: reply.splits prod.splits
        intro!: adds_only_fatal adds_only_emit)
qed

lemma ensure_git_repository_started_adds:
  assumes b: "\<And>ev. benign ev \<Longrightarrow> G ev"
    and c1: "\<And>ev. command_of ev = Some ''git status'' \<Longrightarrow> G ev"
    and c2: "\<And>ev. command_of ev = Some ''git init'' \<Longrightarrow> G ev"
  shows "adds_only G w (snd (ensure_git_repository_started e w))"
proof -
  have r1: "adds_only G w1 (snd (run_cmd e ''git status'' af w1))" for w1 af
    by (rule run_cmd_adds [where G = G])
       (erule b, erule c1)
  have r2: "adds_only G w1 (snd (run_cmd e ''git init'' af w1))" for w1 af
    by (rule run_cmd_adds [where G = G])
       (erule b, erule c2)
  have i: "adds_only G w1 (snd (init_git_repository e w1))" for w1
    unfolding init_git_repository_def
    by (rule adds_only_bind [OF r2]) simp
  show ?thesis
    unfolding ensure_git_repository_started_def is_git_repository_def
    by (intro adds_only_bind r1) (simp_all add: i)
qed

lemma get_git_ignore_adds:
  assumes b: "\<And>ev. benign ev \<Longrightarrow> G ev"
    and c: "\<And>ev. command_of ev = Some ''git rev-parse --show-toplevel'' \<Longrightarrow> G ev"
  shows "adds_only G w (snd (get_git_ignore e w))"
proof -
  have r: "adds_only G w1 (snd (run_cmd e ''git rev-parse --show-toplevel'' af w1))" for w1 af
    by (rule run_cmd_adds [where G = G])
       (erule b, erule c)
  show ?thesis
    unfolding get_git_ignore_def get_base_git_root_def
    by (intro adds_only_bind r) simp_all
qed

lemma ensure_gitignore_is_fine_adds:
  assumes b: "\<And>ev. benign ev \<Longrightarrow> G ev"
    and c: "\<And>ev. command_of ev = Some ''git rev-parse --show-toplevel'' \<Longrightarrow> G ev"
  shows "adds_only G w (snd (ensure_gitignore_is_fine e w))"
proof -
  have "G (Warn x)" for x
    by (simp add: b benign_def)
  have g: "adds_only G w1 (snd (get_git_ignore e w1))" for w1
    by (rule get_git_ignore_adds [where G = G])
       (erule b, erule c)
  from \<open>\<And>x. G (Warn x)\<close> show ?thesis
    unfolding ensure_gitignore_is_fine_def
    by (intro adds_only_bind g) (auto intro!: adds_only_emit)
qed

lemma os_remove_adds:
  assumes "\<And>ev. benign ev \<Longrightarrow> G ev" and "trace w2 = trace w"
  shows "adds_only G w (snd (os_remove p w2))"
  using assms(2) by (auto simp: os_remove_def benign_def adds_only_def emit_def intro!: assms(1))

lemma fetch_updates_adds:
  assumes "\<And>ev. benign ev \<Longrightarrow> G ev"
  shows "adds_only G w (snd (fetch_updates e sid False w))"
  unfolding fetch_updates_def Let_def
  by (auto split: option.splits zip_result.splits reply.splits simp: overlay_def benign_def
      intro!: adds_only_bind adds_only_fatal os_remove_adds assms)

lemma files_changed_adds:
  assumes b: "\<And>ev. benign ev \<Longrightarrow> G ev"
    and c: "\<And>ev. command_of ev = Some ''git status .'' \<Longrightarrow> G ev"
  shows "adds_only G w (snd (files_changed e w))"
proof -
  have r: "adds_only G w1 (snd (run_cmd e ''git status .'' af w1))" for w1 af
    by (rule run_cmd_adds [where G = G])
       (erule b, erule c)
  show ?thesis
    unfolding files_changed_def
    by (intro adds_only_bind r) simp_all
qed

lemma commit_all_changes_adds:
  assumes b: "\<And>ev. benign ev \<Longrightarrow> G ev"
    and c1: "\<And>ev. command_of ev = Some ''git rev-parse --show-toplevel'' \<Longrightarrow> G ev"
    and c2: "\<And>ev. command_of ev = Some ''git add -A .'' \<Longrightarrow> G ev"
    and c3: "\<And>p ev. command_of ev = Some (''git add -A '' @ p) \<Longrightarrow> G ev"
    and c4: "\<And>ts ev. command_of ev = Some (commit_command message title ts) \<Longrightarrow> G ev"
  shows "adds_only G w (snd (commit_all_changes e message title w))"
proof -
  have r2: "adds_only G w1 (snd (run_cmd e ''git add -A .'' af w1))" for w1 af
    by (rule run_cmd_adds [where G = G])
       (erule b, erule c2)
  have r3: "adds_only G w1 (snd (run_cmd e (''git add -A '' @ p) af w1))" for w1 af p
    by (rule run_cmd_adds [where G = G])
       (erule b, erule c3)
  have r4: "adds_only G w1 (snd (run_cmd e (commit_command message title ts) af w1))" for w1 af ts
    by (rule run_cmd_adds [where G = G])
       (erule b, erule c4)
  have g: "adds_only G w1 (snd (get_git_ignore e w1))" for w1
    by (rule get_git_ignore_adds [where G = G])
       (erule b, erule c1)
  show ?thesis
    unfolding commit_all_changes_def
    by (intro adds_only_bind r2 r3 r4 g) simp_all
qed

lemma git_push_adds:
  assumes b: "\<And>ev. benign ev \<Longrightarrow> G ev"
    and c: "\<And>ev. command_of ev = Some ''git push origin master'' \<Longrightarrow> G ev"
  shows "adds_only G w (snd (git_push e w))"
proof -
  have r: "adds_only G w1 (snd (run_cmd e ''git push origin master'' af w1))" for w1 af
    by (rule run_cmd_adds [where G = G])
       (erule b, erule c)
  show ?thesis
    unfolding git_push_def
    by (intro adds_only_bind r) simp_all
qed

lemma sharelatex_push_adds:
  assumes "\<And>ev. benign ev \<Longrightarrow> G ev"
  shows "adds_only G w (snd (sharelatex_push e w))"
  by (auto simp: sharelatex_push_def benign_def split: reply.splits option.splits
      intro!: adds_only_emit assms)

lemma write_saved_adds:
  assumes "\<And>ev. benign ev \<Longrightarrow> G ev"
  shows "adds_only G w (snd (write_saved_sharelatex_document e i w))"
  by (auto simp: write_saved_sharelatex_document_def benign_def intro!: adds_only_emit assms)

lemma conflict_loop_adds:
  assumes "\<And>ev. benign ev \<Longrightarrow> G ev"
  shows "adds_only G w (snd (conflict_loop old new lines w))"
proof -
  have "adds_only G w w1 \<Longrightarrow> adds_only G w (snd (conflict_loop old new lines w1))" for w1
  proof (induction lines arbitrary: w1)
    case Nil
    then show ?case by (auto simp: benign_def intro!: adds_only_emit assms)
  next
    case (Cons line rest)
    have "adds_only G w (emit (Answer line) (emit (Prompt old new) w1))"
      using Cons.prems by (auto simp: benign_def intro!: adds_only_emit assms)
    then show ?case
      using Cons.IH by (simp add: Let_def)
  qed
  then show ?thesis by simp
qed

lemma determine_id_adds:
  assumes "\<And>ev. benign ev \<Longrightarrow> G ev"
  shows "adds_only G w (snd (determine_id e i w))"
  unfolding determine_id_def Let_def
  by (auto simp: benign_def intro!: adds_only_bind adds_only_fatal conflict_loop_adds assms)

lemma go_adds:
  assumes b: "\<And>ev. benign ev \<Longrightarrow> G ev"
    and c1: "\<And>ev. command_of ev = Some ''git status'' \<Longrightarrow> G ev"
    and c2: "\<And>ev. command_of ev = Some ''git init'' \<Longrightarrow> G ev"
    and c3: "\<And>ev. command_of ev = Some ''git rev-parse --show-toplevel'' \<Longrightarrow> G ev"
    and c4: "\<And>ev. \<not> dont_commit \<Longrightarrow> command_of ev = Some ''git status .'' \<Longrightarrow> G ev"
    and c5: "\<And>ev. \<not> dont_commit \<Longrightarrow> command_of ev = Some ''git add -A .'' \<Longrightarrow> G ev"
    and c6: "\<And>p ev. \<not> dont_commit \<Longrightarrow> command_of ev = Some (''git add -A '' @ p) \<Longrightarrow> G ev"
    and c7: "\<And>title ts ev. \<not> dont_commit
                \<Longrightarrow> command_of ev = Some (commit_command message title ts) \<Longrightarrow> G ev"
    and c8: "\<And>ev. \<not> dont_commit \<Longrightarrow> push
                \<Longrightarrow> command_of ev = Some ''git push origin master'' \<Longrightarrow> G ev"
  shows "adds_only G w (snd (go e i message push slp dont_commit w))"
proof -
  have started: "adds_only G w1 (snd (ensure_git_repository_started e w1))" for w1
    by (rule ensure_git_repository_started_adds [where G = G])
       (erule b, erule c1, erule c2)
  have ignore: "adds_only G w1 (snd (ensure_gitignore_is_fine e w1))" for w1
    by (rule ensure_gitignore_is_fine_adds [where G = G])
       (erule b, erule c3)
  have commit_part: "adds_only G w1
      (snd (if \<not> dont_commit then
             bind (files_changed e w1) (\<lambda>changed w.
               if changed then
                 bind (commit_all_changes e message title w) (\<lambda>_ w.
                   if push then git_push e w else (Return (), w))
               else (Return (), w))
           else (Return (), w1)))" for w1 title
  proof (cases dont_commit)
    case True
    then show ?thesis by simp
  next
    case False
    have changed: "adds_only G w2 (snd (files_changed e w2))" for w2
      by (rule files_changed_adds [where G = G])
       (erule b, erule c4 [OF False])
    have commit: "adds_only G w2 (snd (commit_all_changes e message title w2))" for w2
      by (rule commit_all_changes_adds [where G = G])
       (erule b, erule c3, erule c5 [OF False], erule c6 [OF False], erule c7 [OF False])
    have "adds_only G w2 (snd (if push then git_push e w2 else (Return (), w2)))" for w2
    proof (cases push)
      case True
      have "adds_only G w2 (snd (git_push e w2))"
        by (rule git_push_adds [where G = G])
       (erule b, erule c8 [OF False True])
      with True show ?thesis by simp
    next
      case False
      then show ?thesis by simp
    qed
    then have "adds_only G w2 (snd (bind (commit_all_changes e message title w2) (\<lambda>_ w.
                   if push then git_push e w else (Return (), w))))" for w2
      by (intro adds_only_bind commit)
    then show ?thesis
      using False by (auto intro!: adds_only_bind changed)
  qed
  have upload_part: "adds_only G w1 (snd (if slp then sharelatex_push e w1 else (Return (), w1)))" for w1
    using sharelatex_push_adds [where G = G, OF b] by simp
  show ?thesis
    unfolding go_def
    by (intro adds_only_bind determine_id_adds [where G = G, OF b] started ignore
        fetch_updates_adds [where G = G, OF b] write_saved_adds [where G = G, OF b]
        commit_part upload_part)
qed

lemma adds_only_from_start:
  "adds_only G (start fs) w' \<Longrightarrow> \<forall>ev \<in> set (trace w'). G ev"
  by (auto simp: adds_only_def start_def list_all_iff)

lemma bind_Return_iff:
  "bind m k = (Return y, w') \<longleftrightarrow> (\<exists>x w1. m = (Return x, w1) \<and> k x w1 = (Return y, w'))"
  by (cases m, cases "fst m") (auto simp: bind_def)

lemma move_all_adds: "adds_only (\<lambda>ev. True) w (snd (move_all e names w))"
proof -
  have "adds_only (\<lambda>ev. True) w w1 \<Longrightarrow> adds_only (\<lambda>ev. True) w (snd (move_all e names w1))" for w1
  proof (induction names arbitrary: w1)
    case Nil
    then show ?case by simp
  next
    case (Cons n ns)
    have "adds_only (\<lambda>ev. True) w (emit (Move (path_join ''LaTeX'' n) ''.'') (move_up n w1))"
      using Cons.prems by (auto simp: move_up_def intro!: adds_only_emit)
    then show ?case
      using Cons by (simp add: Let_def)
  qed
  then show ?thesis by simp
qed

lemma move_out_of_LaTeX_adds: "adds_only (\<lambda>ev. True) w (snd (move_out_of_LaTeX e w))"
  unfolding move_out_of_LaTeX_def
  by (auto split: option.splits intro!: adds_only_emit adds_only_bind
      adds_only_trans [OF _ move_all_adds])

lemma os_remove_after_download:
  "os_remove f (overlay part (w\<lparr>files := (files w)(f \<mapsto> payload)\<rparr>))
     = (Return (), emit (Remove f) (w\<lparr>files := ((files w)(f \<mapsto> payload) ++ part)(f := None)\<rparr>))"
  by (simp add: os_remove_def overlay_def)

section \<open>Reading back a line that holds an identifier\<close>

lemma alnum_not_space: "is_alnum c \<Longrightarrow> \<not> py_isspace c"
  by (auto simp: is_alnum_def py_isspace_def Let_def)

lemma alnum_not_newline: "is_alnum c \<Longrightarrow> c \<noteq> CHR 0x0A \<and> c \<noteq> CHR 0x0D"
  by (auto simp: is_alnum_def Let_def)

lemma universal_newlines_no_CR: "CHR 0x0D \<notin> set s \<Longrightarrow> universal_newlines s = s"
  by (induction s rule: universal_newlines.induct) auto

lemma lines_from_single: "CHR 0x0A \<notin> set s \<Longrightarrow> lines_from cur (s @ [CHR 0x0A]) = [cur @ s @ [CHR 0x0A]]"
  by (induction s arbitrary: cur) auto

lemma strip_terminated_line:
  assumes "s \<noteq> []" and "\<not> py_isspace (hd s)" and "\<not> py_isspace (last s)"
  shows "strip (s @ [CHR 0x0A]) = s"
proof -
  have front: "dropWhile py_isspace (s @ [CHR 0x0A]) = s @ [CHR 0x0A]"
    using assms(1,2) by (cases s) auto
  have "py_isspace (CHR 0x0A)"
    by (simp add: py_isspace_def)
  then have "dropWhile py_isspace (rev (s @ [CHR 0x0A])) = dropWhile py_isspace (rev s)"
    by simp
  also have "\<dots> = rev s"
    using assms(1,3) by (cases "rev s") (auto simp: last_rev [symmetric] hd_rev)
  finally show ?thesis
    by (simp add: strip_def front)
qed

lemma strip_line_of_identifier:
  assumes "is_identifier I"
  shows "strip (readline (I @ [CHR 0x0A])) = I"
proof -
  from assms have ne: "I \<noteq> []" and al: "\<forall>c \<in> set I. is_alnum c"
    by (auto simp: is_identifier_def list_all_iff)
  have noCR: "CHR 0x0D \<notin> set (I @ [CHR 0x0A])" and noLF: "CHR 0x0A \<notin> set I"
    using al alnum_not_newline by auto
  have rl: "readline (I @ [CHR 0x0A]) = I @ [CHR 0x0A]"
    using lines_from_single [OF noLF, of "[]"] universal_newlines_no_CR [OF noCR]
    by (simp add: readline_def readlines_def)
  have "\<not> py_isspace (hd I)" and "\<not> py_isspace (last I)"
    using al ne alnum_not_space by auto
  then show ?thesis
    using rl strip_terminated_line [OF ne] by simp
qed
section \<open>The timestamp, and the command of a commit\<close>
















section \<open>The commit command under the shell\<close>


lemma shell_plain_append [simp]: "shell_plain (a @ b) \<longleftrightarrow> shell_plain a \<and> shell_plain b"
  by (simp add: shell_plain_def)

lemma shell_plain_Nil [simp]: "shell_plain []"
  by (simp add: shell_plain_def)













section \<open>Change detection and the commits of a run\<close>

lemma contains_iff: "contains sub s \<longleftrightarrow> (\<exists>pre suf. s = pre @ sub @ suf)"
proof (induction s)
  case Nil
  then show ?case by auto
next
  case (Cons c cs)
  show ?case
  proof
    assume "contains sub (c # cs)"
    then consider "prefix sub (c # cs)" | "contains sub cs" by auto
    then show "\<exists>pre suf. c # cs = pre @ sub @ suf"
    proof cases
      case 1
      then obtain suf where "c # cs = sub @ suf" by (auto simp: prefix_def)
      then have "c # cs = [] @ sub @ suf" by simp
      then show ?thesis by blast
    next
      case 2
      with Cons.IH obtain pre suf where "cs = pre @ sub @ suf" by blast
      then have "c # cs = (c # pre) @ sub @ suf" by simp
      then show ?thesis by blast
    qed
  next
    assume "\<exists>pre suf. c # cs = pre @ sub @ suf"
    then obtain pre suf where eq: "c # cs = pre @ sub @ suf" by blast
    show "contains sub (c # cs)"
    proof (cases pre)
      case Nil
      with eq have "prefix sub (c # cs)" by (simp add: prefix_def)
      then show ?thesis by simp
    next
      case (Cons p ps)
      with eq have "cs = ps @ sub @ suf" by simp
      with Cons.IH have "contains sub cs" by blast
      then show ?thesis by simp
    qed
  qed
qed

lemma status_says_changed_iff:
  "status_says_changed out \<longleftrightarrow> \<not> (\<exists>pre mid suf. out = pre @ mid @ suf \<and> lower mid = clean_phrase)"
proof -
  have "contains clean_phrase (lower out)
      \<longleftrightarrow> (\<exists>pre mid suf. out = pre @ mid @ suf \<and> lower mid = clean_phrase)"
  proof
    assume "contains clean_phrase (lower out)"
    then obtain p s where eq: "map py_lower_char out = p @ clean_phrase @ s"
      by (auto simp: contains_iff lower_def)
    define pre where "pre = take (length p) out"
    define mid where "mid = take (length clean_phrase) (drop (length p) out)"
    define suf where "suf = drop (length clean_phrase) (drop (length p) out)"
    have "out = pre @ mid @ suf"
      by (simp only: pre_def mid_def suf_def append_take_drop_id)
    moreover have "map py_lower_char mid = take (length clean_phrase) (drop (length p) (map py_lower_char out))"
      by (simp add: mid_def take_map drop_map)
    then have "lower mid = clean_phrase"
      by (simp add: eq lower_def)
    ultimately show "\<exists>pre mid suf. out = pre @ mid @ suf \<and> lower mid = clean_phrase"
      by blast
  next
    assume "\<exists>pre mid suf. out = pre @ mid @ suf \<and> lower mid = clean_phrase"
    then obtain pre mid suf where "out = pre @ mid @ suf" and "lower mid = clean_phrase" by blast
    then have "lower out = lower pre @ clean_phrase @ lower suf"
      by (simp add: lower_def)
    then show "contains clean_phrase (lower out)"
      unfolding contains_iff by blast
  qed
  then show ?thesis
    by (simp add: status_says_changed_def)
qed

lemma no_commit_consistent: "\<not> list_ex is_commit tr \<Longrightarrow> consistent tr"
  by (simp add: consistent_def)

lemma no_clean_status_consistent: "\<not> list_ex clean_status tr \<Longrightarrow> consistent tr"
  by (simp add: consistent_def)

lemma clean_status_is_scoped: "clean_status ev \<Longrightarrow> is_scoped_status ev"
  by (cases ev) (simp_all add: clean_status_def is_scoped_status_def command_of_def)

lemma all_quiet_consistent: "list_all quiet tr \<Longrightarrow> consistent tr"
  by (rule no_commit_consistent) (auto simp: list_all_iff list_ex_iff quiet_def)

lemma consistent_adds:
  assumes "adds_only quiet w w'" and "consistent (trace w)"
  shows "consistent (trace w')"
proof -
  from assms(1) obtain evs where tr: "trace w' = trace w @ evs" and q: "\<forall>ev \<in> set evs. quiet ev"
    by (auto simp: adds_only_def list_all_iff)
  from q have "\<forall>ev \<in> set evs. \<not> is_commit ev \<and> \<not> clean_status ev"
    using clean_status_is_scoped by (auto simp: quiet_def)
  with assms(2) tr show ?thesis
    by (auto simp: consistent_def list_ex_iff)
qed

lemma all_quiet_adds:
  assumes "adds_only quiet w w'" and "list_all quiet (trace w)"
  shows "list_all quiet (trace w')"
  using assms by (auto simp: adds_only_def)

lemma bind_consistent:
  assumes "consistent (trace (snd m))" and "\<And>x w1. adds_only quiet w1 (snd (k x w1))"
  shows "consistent (trace (snd (bind m k)))"
proof (cases m)
  case (Pair r w1)
  then show ?thesis
    using assms consistent_adds [of w1 "snd (k x w1)" for x]
    by (cases r) (auto simp: bind_def)
qed

lemma bind_all_quiet:
  assumes "list_all quiet (trace w)" and "adds_only quiet w (snd m)"
    and "\<And>x w1. list_all quiet (trace w1) \<Longrightarrow> consistent (trace (snd (k x w1)))"
  shows "consistent (trace (snd (bind m k)))"
proof (cases m)
  case (Pair r w1)
  then have "list_all quiet (trace w1)"
    using all_quiet_adds [OF assms(2) assms(1)] by simp
  then show ?thesis
    using Pair assms(3) all_quiet_consistent by (cases r) (auto simp: bind_def)
qed

lemma benign_quiet: "benign ev \<Longrightarrow> quiet ev"
  by (cases ev) (simp_all add: benign_def quiet_def is_commit_def is_scoped_status_def command_of_def)

lemma benign_not_scoped: "benign ev \<Longrightarrow> \<not> is_scoped_status ev"
  by (cases ev) (simp_all add: benign_def is_scoped_status_def command_of_def)

lemma commit_command_starts: "take 10 (commit_command message title ts) = ''git commit''"
  by (simp add: commit_command_def Let_def)

lemma commit_command_is_no_status: "commit_command message title ts \<noteq> ''git status .''"
  using commit_command_starts [of message title ts] by auto

lemma commit_and_push_add_no_status:
  "adds_only (\<lambda>ev. \<not> is_scoped_status ev) w
     (snd (bind (commit_all_changes e message title w) (\<lambda>_ w.
        if push then git_push e w else (Return (), w))))"
proof -
  let ?G = "\<lambda>ev. \<not> is_scoped_status ev"
  have a0: "command_of ev = Some ''git push origin master'' \<Longrightarrow> ?G ev" for ev
    by (simp add: is_scoped_status_def)
  have g: "adds_only ?G w2 (snd (git_push e w2))" for w2
    by (rule git_push_adds [where G = ?G])
       (erule benign_not_scoped, erule a0)
  have p: "adds_only ?G w2 (snd (if push then git_push e w2 else (Return (), w2)))" for w2
    using g by simp
  have a1: "command_of ev = Some ''git rev-parse --show-toplevel'' \<Longrightarrow> ?G ev" for ev
    by (simp add: is_scoped_status_def)
  have a2: "command_of ev = Some ''git add -A .'' \<Longrightarrow> ?G ev" for ev
    by (simp add: is_scoped_status_def)
  have a3: "command_of ev = Some (''git add -A '' @ p) \<Longrightarrow> ?G ev" for ev p
    by (simp add: is_scoped_status_def)
  have a4: "command_of ev = Some (commit_command message title ts) \<Longrightarrow> ?G ev" for ev ts
    by (simp add: is_scoped_status_def commit_command_is_no_status)
  have c: "adds_only ?G w2 (snd (commit_all_changes e message title w2))" for w2
    by (rule commit_all_changes_adds [where G = ?G])
       (erule benign_not_scoped, erule a1, erule a2, erule a3, erule a4)
  show ?thesis
    by (intro adds_only_bind p c)
qed

lemma commit_block_consistent:
  assumes q: "list_all quiet (trace w)"
  shows "consistent (trace (snd (if \<not> dont_commit then
             bind (files_changed e w) (\<lambda>changed w.
               if changed then
                 bind (commit_all_changes e message title w) (\<lambda>_ w.
                   if push then git_push e w else (Return (), w))
               else (Return (), w))
           else (Return (), w))))"
proof (cases dont_commit)
  case True
  then show ?thesis
    using q by (simp add: all_quiet_consistent)
next
  case False
  show ?thesis
  proof (cases "shell e (trace w) ''git status .''")
    case NoReply
    then have fc: "files_changed e w = (Hang, emit (Blocked ''git status .'') w)"
      by (simp add: files_changed_def run_cmd_def bind_def)
    have "\<not> list_ex is_commit (trace (emit (Blocked ''git status .'') w))"
      using q by (auto simp: emit_def list_all_iff list_ex_iff quiet_def is_commit_def command_of_def)
    then show ?thesis
      using False by (simp add: fc bind_def no_commit_consistent)
  next
    case (Reply r)
    obtain st b where r: "r = (st, b)"
      by (cases r)
    define w2 where "w2 = emit (Cmd ''git status .'' st b) w"
    have sh: "shell e (trace w) ''git status .'' = Reply (st, b)"
      using Reply r by simp
    have no_commit_w2: "\<not> list_ex is_commit (trace w2)"
      using q
      by (auto simp: w2_def emit_def list_all_iff list_ex_iff quiet_def is_commit_def command_of_def)
    show ?thesis
    proof (cases "st \<noteq> 0")
      case True
      then have fc: "files_changed e w = (Fatal, emit (Err (CmdFailed ''git status .'' st b)) w2)"
        by (simp add: files_changed_def run_cmd_def sh w2_def bind_def fatal_error_def)
      have "\<not> list_ex is_commit (trace (emit (Err (CmdFailed ''git status .'' st b)) w2))"
        using no_commit_w2 by (simp add: emit_def is_commit_def command_of_def)
      then show ?thesis
        using False by (simp add: fc bind_def no_commit_consistent)
    next
      case ok: False
      then have rc: "run_cmd e ''git status .'' False w = (Return b, w2)"
        by (simp add: run_cmd_def sh w2_def)
      show ?thesis
      proof (cases b)
        case NotUtf8
        then have fc: "files_changed e w = (Crash, w2)"
          by (simp add: files_changed_def rc bind_def decode_utf8_def)
        show ?thesis
          using False no_commit_w2 by (simp add: fc bind_def no_commit_consistent)
      next
        case (Utf8 out)
        then have fc: "files_changed e w = (Return (status_says_changed out), w2)"
          by (simp add: files_changed_def rc bind_def decode_utf8_def)
        show ?thesis
        proof (cases "status_says_changed out")
          case False
          then show ?thesis
            using \<open>\<not> dont_commit\<close> fc no_commit_w2 by (simp add: bind_def no_commit_consistent)
        next
          case True
          let ?w' = "snd (bind (commit_all_changes e message title w2) (\<lambda>_ w.
                       if push then git_push e w else (Return (), w)))"
          from commit_and_push_add_no_status [of w2 e message title push]
          obtain evs where tr: "trace ?w' = trace w2 @ evs"
            and ns: "\<forall>ev \<in> set evs. \<not> is_scoped_status ev"
            by (auto simp: adds_only_def list_all_iff)
          have "\<not> list_ex clean_status (trace w2)"
            using q True clean_status_is_scoped Utf8
            by (auto simp: w2_def emit_def list_all_iff list_ex_iff quiet_def clean_status_def)
          with tr ns have "\<not> list_ex clean_status (trace ?w')"
            using clean_status_is_scoped by (auto simp: list_ex_iff)
          then show ?thesis
            using \<open>\<not> dont_commit\<close> fc True by (simp add: bind_def no_clean_status_consistent)
        qed
      qed
    qed
  qed
qed

lemma go_consistent:
  "consistent (trace (snd (go e ident message push sharelatex_push_flag dont_commit (start fs))))"
proof -
  have q0: "list_all quiet (trace (start fs))"
    by (simp add: start_def)
  have tail: "adds_only quiet w1
      (snd (bind (if sharelatex_push_flag then sharelatex_push e w1 else (Return (), w1))
             (\<lambda>_ w. write_saved_sharelatex_document e i w)))" for w1 i
    by (auto intro!: adds_only_bind sharelatex_push_adds write_saved_adds benign_quiet)
  have fetch: "adds_only quiet w1 (snd (fetch_updates e i False w1))" for w1 i
    by (rule fetch_updates_adds [where G = quiet]) (erule benign_quiet)
  have q1: "command_of ev = Some ''git status'' \<Longrightarrow> quiet ev"
    "command_of ev = Some ''git init'' \<Longrightarrow> quiet ev"
    "command_of ev = Some ''git rev-parse --show-toplevel'' \<Longrightarrow> quiet ev" for ev
    by (simp_all add: quiet_def is_commit_def is_scoped_status_def)
  have ignore: "adds_only quiet w1 (snd (ensure_gitignore_is_fine e w1))" for w1
    by (rule ensure_gitignore_is_fine_adds [where G = quiet])
       (erule benign_quiet, erule q1(3))
  have started: "adds_only quiet w1 (snd (ensure_git_repository_started e w1))" for w1
    by (rule ensure_git_repository_started_adds [where G = quiet])
       (erule benign_quiet, erule q1(1), erule q1(2))
  have ident: "adds_only quiet w1 (snd (determine_id e i w1))" for w1 i
    by (rule determine_id_adds [where G = quiet]) (erule benign_quiet)
  have l5: "list_all quiet (trace w1) \<Longrightarrow> consistent (trace (snd
      (bind (if \<not> dont_commit then
             bind (files_changed e w1) (\<lambda>changed w.
               if changed then
                 bind (commit_all_changes e message title w) (\<lambda>_ w.
                   if push then git_push e w else (Return (), w))
               else (Return (), w))
           else (Return (), w1))
        (\<lambda>_ w. bind (if sharelatex_push_flag then sharelatex_push e w else (Return (), w))
             (\<lambda>_ w. write_saved_sharelatex_document e i w)))))" for w1 title i
    by (rule bind_consistent [OF commit_block_consistent tail])
  have l4: "list_all quiet (trace w1) \<Longrightarrow> consistent (trace (snd
      (bind (fetch_updates e i False w1) (\<lambda>project_title w.
        bind (if \<not> dont_commit then
             bind (files_changed e w) (\<lambda>changed w.
               if changed then
                 bind (commit_all_changes e message project_title w) (\<lambda>_ w.
                   if push then git_push e w else (Return (), w))
               else (Return (), w))
           else (Return (), w))
        (\<lambda>_ w. bind (if sharelatex_push_flag then sharelatex_push e w else (Return (), w))
             (\<lambda>_ w. write_saved_sharelatex_document e i w))))))" for w1 i
    by (rule bind_all_quiet [OF _ fetch l5])
  have l3: "list_all quiet (trace w1) \<Longrightarrow> consistent (trace (snd
      (bind (ensure_gitignore_is_fine e w1) (\<lambda>_ w.
       bind (fetch_updates e i False w) (\<lambda>project_title w.
        bind (if \<not> dont_commit then
             bind (files_changed e w) (\<lambda>changed w.
               if changed then
                 bind (commit_all_changes e message project_title w) (\<lambda>_ w.
                   if push then git_push e w else (Return (), w))
               else (Return (), w))
           else (Return (), w))
        (\<lambda>_ w. bind (if sharelatex_push_flag then sharelatex_push e w else (Return (), w))
             (\<lambda>_ w. write_saved_sharelatex_document e i w)))))))" for w1 i
    by (rule bind_all_quiet [OF _ ignore l4])
  have l2: "list_all quiet (trace w1) \<Longrightarrow> consistent (trace (snd
      (bind (ensure_git_repository_started e w1) (\<lambda>_ w.
       bind (ensure_gitignore_is_fine e w) (\<lambda>_ w.
       bind (fetch_updates e i False w) (\<lambda>project_title w.
        bind (if \<not> dont_commit then
             bind (files_changed e w) (\<lambda>changed w.
               if changed then
                 bind (commit_all_changes e message project_title w) (\<lambda>_ w.
                   if push then git_push e w else (Return (), w))
               else (Return (), w))
           else (Return (), w))
        (\<lambda>_ w. bind (if sharelatex_push_flag then sharelatex_push e w else (Return (), w))
             (\<lambda>_ w. write_saved_sharelatex_document e i w))))))))" for w1 i
    by (rule bind_all_quiet [OF _ started l3])
  show ?thesis
    unfolding go_def
    by (rule bind_all_quiet [OF q0 ident l2])
qed

section \<open>What identifier extraction returns\<close>

lemma extract_id_without_scheme:
  assumes "\<not> contains ''http:'' (lower i)" and "\<not> contains ''https:'' (lower i)"
  shows "extract_id_from_input i w = (Return (Some i), w)"
  using assms by (simp add: extract_id_from_input_def match_alnum_star_def)

section \<open>The exclusion file: where the update is idempotent\<close>

text \<open>
  The update is idempotent on a missing file, on an empty file and on every file whose last
  line ends with a line feed, and the old text always stays in front.
\<close>

lemma universal_newlines_append:
  assumes "a = [] \<or> last a \<noteq> CHR 0x0D"
  shows "universal_newlines (a @ b) = universal_newlines a @ universal_newlines b"
  using assms
proof (induction a rule: universal_newlines.induct)
  case 1
  then show ?case by simp
next
  case (2 c)
  then show ?case by (cases b) auto
next
  case (3 c d cs)
  then show ?case by (cases cs) (auto split: if_splits)
qed

lemma universal_newlines_last:
  assumes "a \<noteq> []" and "last a = CHR 0x0A"
  shows "universal_newlines a \<noteq> [] \<and> last (universal_newlines a) = CHR 0x0A"
  using assms
proof (induction a rule: universal_newlines.induct)
  case 1
  then show ?case by simp
next
  case (2 c)
  then show ?case by simp
next
  case (3 c d cs)
  then show ?case by (cases cs) (auto split: if_splits)
qed

lemma lines_from_append:
  "lines_from cur (a @ [CHR 0x0A] @ b) = lines_from cur (a @ [CHR 0x0A]) @ lines_from [] b"
  by (induction a arbitrary: cur) auto

lemma lines_from_after_terminated:
  assumes "a = [] \<or> last a = CHR 0x0A"
  shows "lines_from [] (a @ b) = lines_from [] a @ lines_from [] b"
proof (cases "a = []")
  case True
  then show ?thesis by simp
next
  case False
  with assms obtain a' where "a = a' @ [CHR 0x0A]"
    by (metis append_butlast_last_id)
  then show ?thesis
    using lines_from_append [of "[]" a' b] by simp
qed

lemma lines_from_first_line:
  "CHR 0x0A \<notin> set s \<Longrightarrow> lines_from cur (s @ [CHR 0x0A] @ rest) = (cur @ s @ [CHR 0x0A]) # lines_from [] rest"
  by (induction s arbitrary: cur) auto

lemma lines_from_entries:
  assumes "\<forall>s \<in> set ss. CHR 0x0A \<notin> set s"
  shows "lines_from [] (concat (map (\<lambda>s. s @ [CHR 0x0A]) ss)) = map (\<lambda>s. s @ [CHR 0x0A]) ss"
  using assms
proof (induction ss)
  case Nil
  then show ?case by simp
next
  case (Cons s ss)
  then show ?case
    using lines_from_first_line [of s "[]" "concat (map (\<lambda>s. s @ [CHR 0x0A]) ss)"] by simp
qed

lemma required_entry_facts:
  assumes "s \<in> set required_entries"
  shows "CHR 0x0A \<notin> set s" and "CHR 0x0D \<notin> set s" and "strip (s @ [CHR 0x0A]) = s"
  using assms by (auto simp: required_entries_def strip_def py_isspace_def)

lemma readlines_after_update:
  assumes "content = [] \<or> last content = CHR 0x0A" and "set ss \<subseteq> set required_entries"
  shows "map strip (readlines (content @ concat (map (\<lambda>s. s @ [CHR 0x0A]) ss)))
           = map strip (readlines content) @ ss"
proof -
  let ?X = "concat (map (\<lambda>s. s @ [CHR 0x0A]) ss)"
  have noCR: "CHR 0x0D \<notin> set ?X" and noLF: "\<forall>s \<in> set ss. CHR 0x0A \<notin> set s"
    using assms(2) required_entry_facts by auto
  have split: "universal_newlines (content @ ?X) = universal_newlines content @ ?X"
    using assms(1) universal_newlines_append [of content ?X] universal_newlines_no_CR [OF noCR]
    by auto
  have "universal_newlines content = [] \<or> last (universal_newlines content) = CHR 0x0A"
    using assms(1) universal_newlines_last [of content] by (cases "content = []") auto
  then have "readlines (content @ ?X) = readlines content @ map (\<lambda>s. s @ [CHR 0x0A]) ss"
    using lines_from_after_terminated [of "universal_newlines content" ?X] lines_from_entries [OF noLF]
    by (simp add: readlines_def split)
  moreover have "map strip (map (\<lambda>s. s @ [CHR 0x0A]) ss) = ss"
    using assms(2) required_entry_facts(3) by (induction ss) auto
  ultimately show ?thesis by simp
qed

lemma gitignore_update_idempotent_when_terminated:
  assumes "content = [] \<or> last content = CHR 0x0A"
  shows "gitignore_update (Some (gitignore_update (Some content))) = gitignore_update (Some content)"
proof -
  let ?lines = "map strip (readlines content)"
  let ?missing = "filter (\<lambda>s. s \<notin> set ?lines) required_entries"
  have u: "gitignore_update (Some content) = content @ concat (map (\<lambda>s. s @ [CHR 0x0A]) ?missing)"
    by (simp add: gitignore_update_def)
  have "map strip (readlines (gitignore_update (Some content))) = ?lines @ ?missing"
    unfolding u by (rule readlines_after_update [OF assms]) auto
  then have "filter (\<lambda>s. s \<notin> set (map strip (readlines (gitignore_update (Some content)))))
      required_entries = []"
    by (auto simp: filter_empty_conv)
  then show ?thesis
    by (simp add: gitignore_update_def [of "Some (gitignore_update (Some content))"])
qed

lemma gitignore_update_idempotent_when_missing:
  "gitignore_update (Some (gitignore_update None)) = gitignore_update None"
  using gitignore_update_idempotent_when_terminated [of "[]"]
  by (simp add: gitignore_update_def readlines_def)

lemma gitignore_update_keeps_content: "prefix content (gitignore_update (Some content))"
  by (simp add: gitignore_update_def)

section \<open>The claims about the main flow\<close>

text \<open>
  Claim C1, as stated, says that the main flow fetches with normalization enabled, so that
  every entry under the folder \<open>LaTeX\<close> is moved up and the folder removed. The code calls
  \<open>fetch_updates(id, False)\<close>. On an archive with the one entry \<open>LaTeX/main.tex\<close> the run
  ends normally, the entry is still under \<open>LaTeX\<close>, and no \<open>main.tex\<close> is in the current
  directory.
\<close>

theorem main_flow_normalizes_counterexample:
  "fst (go (sample_env [] 0 (Extracted sample_archive)) (Some ''abc123'') [] False False False
         (start no_files)) = Return ()
   \<and> files (snd (go (sample_env [] 0 (Extracted sample_archive)) (Some ''abc123'') [] False False
         False (start no_files))) ''LaTeX/main.tex'' = Some ''x''
   \<and> files (snd (go (sample_env [] 0 (Extracted sample_archive)) (Some ''abc123'') [] False False
         False (start no_files))) ''main.tex'' = None"
  by code_simp

text \<open>
  Claim C1, amended: in the main flow the fetch step is invoked with normalization
  disabled. Whatever the environment and the arguments, a run never lists the folder
  \<open>LaTeX\<close>, never moves an entry out of it and never removes it.
\<close>

theorem main_flow_never_normalizes:
  "\<forall>ev \<in> set (trace (snd (go e ident message push sharelatex_push_flag dont_commit (start fs)))).
     \<not> is_normalization ev"
proof -
  let ?G = "\<lambda>ev. \<not> is_normalization ev"
  have b: "benign ev \<Longrightarrow> ?G ev" for ev
    by (cases ev) (simp_all add: benign_def is_normalization_def)
  have c: "command_of ev = Some cmd \<Longrightarrow> ?G ev" for ev cmd
    by (cases ev) (simp_all add: command_of_def is_normalization_def)
  have "adds_only ?G (start fs) (snd (go e ident message push sharelatex_push_flag dont_commit (start fs)))"
    by (rule go_adds [where G = ?G]) (erule b c)+
  then show ?thesis
    by (rule adds_only_from_start)
qed

text \<open>
  The amended claim on the sample run: its trace holds the removal of the downloaded
  archive, which is not a normalization step.
\<close>

theorem main_flow_never_normalizes_witness:
  "Remove ''sharelatex.zip'' \<in> set (trace (snd (go (sample_env [] 0 (Extracted sample_archive))
       (Some ''abc123'') [] False False False (start no_files))))
   \<and> \<not> is_normalization (Remove ''sharelatex.zip'')"
proof -
  have mem: "Remove ''sharelatex.zip'' \<in> set (trace (snd (go (sample_env [] 0 (Extracted sample_archive))
       (Some ''abc123'') [] False False False (start no_files))))"
    by code_simp
  from main_flow_never_normalizes mem show ?thesis
    by blast
qed

text \<open>
  Claim C9: in no-commit mode a run invokes no staging command, no commit command and no
  scoped status query, whatever the environment answers, and so whether or not the working
  tree differs from the last commit.
\<close>

theorem no_commit_mode_runs_no_staging_commit_or_status:
  "\<forall>ev \<in> set (trace (snd (go e ident message push sharelatex_push_flag True (start fs)))).
     \<not> is_staging ev \<and> \<not> is_commit ev \<and> \<not> is_scoped_status ev"
proof -
  let ?G = "\<lambda>ev. \<not> is_staging ev \<and> \<not> is_commit ev \<and> \<not> is_scoped_status ev"
  have b: "benign ev \<Longrightarrow> ?G ev" for ev
    by (cases ev)
       (simp_all add: benign_def is_staging_def is_commit_def is_scoped_status_def command_of_def)
  have "adds_only ?G (start fs) (snd (go e ident message push sharelatex_push_flag True (start fs)))"
    by (rule go_adds [where G = ?G and dont_commit = True])
       (erule b, simp_all add: is_staging_def is_commit_def is_scoped_status_def)
  then show ?thesis
    by (rule adds_only_from_start)
qed

text \<open>
  Claim C9 on the sample run in no-commit mode: the plain status query of the repository
  check is in the trace, and it is none of the three.
\<close>

theorem no_commit_mode_runs_no_staging_commit_or_status_witness:
  "Cmd ''git status'' 0 (Utf8 []) \<in> set (trace (snd (go (sample_env [] 0 (Extracted sample_archive))
       (Some ''abc123'') [] False False True (start no_files))))
   \<and> \<not> is_staging (Cmd ''git status'' 0 (Utf8 [])) \<and> \<not> is_commit (Cmd ''git status'' 0 (Utf8 []))
   \<and> \<not> is_scoped_status (Cmd ''git status'' 0 (Utf8 []))"
proof -
  have mem: "Cmd ''git status'' 0 (Utf8 []) \<in> set (trace (snd (go (sample_env [] 0 (Extracted sample_archive))
       (Some ''abc123'') [] False False True (start no_files))))"
    by code_simp
  from no_commit_mode_runs_no_staging_commit_or_status mem show ?thesis
    by blast
qed

section \<open>The claims about identifier extraction\<close>

text \<open>
  Claim C3 says that a URL-shaped input yields an identifier matching \<open>[A-Za-z0-9]+\<close> or a
  fatal error. The pattern of the code ends its group with a star: on a project URL with
  nothing after \<open>/project/\<close> the function returns the empty string, which is no
  identifier, and logs nothing.
\<close>

theorem extract_id_from_url_returns_empty:
  "extract_id_from_input ''https://www.sharelatex.com/project/'' w = (Return (Some []), w)
   \<and> \<not> is_identifier []"
  by (simp add: extract_id_from_input_def lower_def py_lower_char_def urlsplit_path_def
      strip_scheme_def scheme_chars_def is_alnum_def is_digit_def is_identifier_def)

text \<open>
  Claim C4 says that an input without a scheme is returned only when the whole of it
  matches \<open>[A-Za-z0-9]+\<close>, and that otherwise a warning is logged and nothing is returned.
  The code tests \<open>p.match(i)\<close> for a pattern that matches the empty prefix: the input
  \<open>abc-def\<close> is returned as it is, and the world, the log included, is unchanged.
\<close>

theorem extract_id_returns_hyphenated_input:
  "extract_id_from_input ''abc-def'' w = (Return (Some ''abc-def''), w)
   \<and> \<not> is_identifier ''abc-def''"
  by (simp add: extract_id_from_input_def lower_def py_lower_char_def match_alnum_star_def
      is_identifier_def is_alnum_def)

section \<open>The claim about the exclusion file\<close>

text \<open>
  Claim C6 says that the update of the exclusion file is idempotent. On a file whose last
  line has no line end the first entry is glued to that line, so it is not found as a line
  by the second update, which appends it again: with the text \<open>foo\<close> the second update
  changes the file. The first two equations are the text after one and after two updates;
  the last two are \<open>ensure_gitignore_is_fine\<close> run once and twice on a repository at
  \<open>/repo\<close> with that file.
\<close>

theorem gitignore_update_twice_differs:
  "gitignore_update (Some ''foo'')
     = ''foosharelatex-git.py\<newline>sharelatex-git\<newline>.sharelatex-git\<newline>''
   \<and> gitignore_update (Some (gitignore_update (Some ''foo'')))
     = ''foosharelatex-git.py\<newline>sharelatex-git\<newline>.sharelatex-git\<newline>sharelatex-git.py\<newline>''
   \<and> files (snd (ensure_gitignore_is_fine (sample_env [] 0 (Extracted sample_archive))
         (start sample_unterminated))) ''/repo/.gitignore''
     = Some ''foosharelatex-git.py\<newline>sharelatex-git\<newline>.sharelatex-git\<newline>''
   \<and> files (snd (ensure_gitignore_is_fine (sample_env [] 0 (Extracted sample_archive))
         (snd (ensure_gitignore_is_fine (sample_env [] 0 (Extracted sample_archive))
           (start sample_unterminated))))) ''/repo/.gitignore''
     = Some ''foosharelatex-git.py\<newline>sharelatex-git\<newline>.sharelatex-git\<newline>sharelatex-git.py\<newline>''
   \<and> gitignore_update (Some (gitignore_update (Some ''foo''))) \<noteq> gitignore_update (Some ''foo'')"
  by code_simp
section \<open>The claim about the downloaded archive\<close>

text \<open>
  Claim C8, as stated, covers every payload that is not a valid archive. The code deletes
  the downloaded file in the handler of \<open>BadZipFile\<close> only. When opening or extracting the
  payload raises another exception (\<open>zlib.error\<close> on corrupt compressed data, for
  instance), nothing catches it: the step ends with the uncaught exception, not with the
  fatal error, and \<open>sharelatex.zip\<close> is still on disk.
\<close>

theorem fetch_keeps_archive_when_extraction_raises_counterexample:
  "fst (fetch_updates (sample_env [] 0 (ExtractFailed no_files)) ''abc123'' False (start no_files))
     = Crash
   \<and> files (snd (fetch_updates (sample_env [] 0 (ExtractFailed no_files)) ''abc123'' False
        (start no_files))) ''sharelatex.zip'' = Some ''PK''"
  by code_simp

text \<open>
  Claim C8, amended: once the download has succeeded, a payload on which the archive
  library raises \<open>BadZipFile\<close> makes the fetch step delete the downloaded file and then end
  the process with the fatal error; the trace shows the removal first, the error second, and
  the file is gone. After a successful extraction the file is removed as well, with or
  without normalization, and in the configuration of the main flow it is absent when the
  step ends. A payload on which the library raises any other exception ends the step with
  that exception, uncaught: nothing is removed and the downloaded file stays on disk.
\<close>

theorem fetch_removes_downloaded_archive:
  assumes "urlretrieve e (''https://www.sharelatex.com/project/'' @ sid @ ''/download/zip'')
             = Reply (Some payload)"
  shows "(unzip e payload = BadZipFile part \<longrightarrow>
            fst (fetch_updates e sid skip w) = Fatal
            \<and> files (snd (fetch_updates e sid skip w)) ''sharelatex.zip'' = None
            \<and> trace (snd (fetch_updates e sid skip w))
                = trace w @ [Remove ''sharelatex.zip'', Err NotAZipFile])
       \<and> (unzip e payload = Extracted entries \<longrightarrow>
            Remove ''sharelatex.zip'' \<in> set (trace (snd (fetch_updates e sid skip w)))
            \<and> files (snd (fetch_updates e sid False w)) ''sharelatex.zip'' = None)
       \<and> (unzip e payload = ExtractFailed part \<longrightarrow>
            fst (fetch_updates e sid skip w) = Crash
            \<and> files (snd (fetch_updates e sid skip w)) ''sharelatex.zip'' \<noteq> None
            \<and> trace (snd (fetch_updates e sid skip w)) = trace w)"
proof (intro conjI impI)
  assume bad: "unzip e payload = BadZipFile part"
  have step: "fetch_updates e sid skip w = fatal_error NotAZipFile (emit (Remove ''sharelatex.zip'')
     (w\<lparr>files := ((files w)(''sharelatex.zip'' \<mapsto> payload) ++ part)(''sharelatex.zip'' := None)\<rparr>))"
    using assms bad
    by (simp add: fetch_updates_def Let_def os_remove_after_download bind_def)
  show "fst (fetch_updates e sid skip w) = Fatal"
    unfolding step by (simp add: fatal_error_def)
  show "files (snd (fetch_updates e sid skip w)) ''sharelatex.zip'' = None"
    unfolding step by (simp add: fatal_error_def emit_def)
  show "trace (snd (fetch_updates e sid skip w)) = trace w @ [Remove ''sharelatex.zip'', Err NotAZipFile]"
    unfolding step by (simp add: fatal_error_def emit_def)
next
  assume ok: "unzip e payload = Extracted entries"
  define w2 where "w2 = emit (Remove ''sharelatex.zip'')
     (w\<lparr>files := ((files w)(''sharelatex.zip'' \<mapsto> payload) ++ entries)(''sharelatex.zip'' := None)\<rparr>)"
  have step: "fetch_updates e sid sk w =
      bind (if sk then move_out_of_LaTeX e w2 else (Return (), w2)) (\<lambda>_ w.
        (case lookup_title e (''https://www.sharelatex.com/project/'' @ sid) of
           NoReply \<Rightarrow> (Hang, w)
         | Reply title \<Rightarrow> (Return title, w)))" for sk
    using assms ok
    by (simp add: fetch_updates_def Let_def os_remove_after_download bind_def w2_def)
  have in2: "Remove ''sharelatex.zip'' \<in> set (trace w2)"
    by (simp add: w2_def emit_def)
  have "adds_only (\<lambda>ev. True) w2 (snd (fetch_updates e sid skip w))"
    unfolding step by (auto intro!: adds_only_bind move_out_of_LaTeX_adds split: reply.splits)
  then show "Remove ''sharelatex.zip'' \<in> set (trace (snd (fetch_updates e sid skip w)))"
    using in2 by (auto simp: adds_only_def)
  show "files (snd (fetch_updates e sid False w)) ''sharelatex.zip'' = None"
    unfolding step by (simp add: bind_def w2_def emit_def split: reply.splits)
next
  assume failed: "unzip e payload = ExtractFailed part"
  have step: "fetch_updates e sid skip w
      = (Crash, overlay part (w\<lparr>files := (files w)(''sharelatex.zip'' \<mapsto> payload)\<rparr>))"
    using assms failed by (simp add: fetch_updates_def Let_def)
  show "fst (fetch_updates e sid skip w) = Crash"
    unfolding step by simp
  show "files (snd (fetch_updates e sid skip w)) ''sharelatex.zip'' \<noteq> None"
    unfolding step by (simp add: overlay_def map_add_def split: option.splits)
  show "trace (snd (fetch_updates e sid skip w)) = trace w"
    unfolding step by (simp add: overlay_def)
qed

text \<open>
  The amended claim on the sample environment: with a payload that is no archive, with the
  sample archive, and with a payload whose extraction raises another exception.
\<close>

theorem fetch_removes_downloaded_archive_witness:
  "fst (fetch_updates (sample_env [] 0 (BadZipFile no_files)) ''abc123'' False (start no_files)) = Fatal
   \<and> files (snd (fetch_updates (sample_env [] 0 (BadZipFile no_files)) ''abc123'' False (start no_files)))
        ''sharelatex.zip'' = None
   \<and> Remove ''sharelatex.zip'' \<in> set (trace (snd (fetch_updates
        (sample_env [] 0 (Extracted sample_archive)) ''abc123'' True (start no_files))))
   \<and> files (snd (fetch_updates (sample_env [] 0 (Extracted sample_archive)) ''abc123'' False
        (start no_files))) ''sharelatex.zip'' = None
   \<and> fst (fetch_updates (sample_env [] 0 (ExtractFailed no_files)) ''abc123'' True (start no_files))
        = Crash
   \<and> files (snd (fetch_updates (sample_env [] 0 (ExtractFailed no_files)) ''abc123'' True
        (start no_files))) ''sharelatex.zip'' \<noteq> None"
proof -
  have r1: "urlretrieve (sample_env [] 0 (BadZipFile no_files))
      (''https://www.sharelatex.com/project/'' @ ''abc123'' @ ''/download/zip'') = Reply (Some ''PK'')"
    by (simp add: sample_env_def)
  have u1: "unzip (sample_env [] 0 (BadZipFile no_files)) ''PK'' = BadZipFile no_files"
    by (simp add: sample_env_def)
  have r2: "urlretrieve (sample_env [] 0 (Extracted sample_archive))
      (''https://www.sharelatex.com/project/'' @ ''abc123'' @ ''/download/zip'') = Reply (Some ''PK'')"
    by (simp add: sample_env_def)
  have u2: "unzip (sample_env [] 0 (Extracted sample_archive)) ''PK'' = Extracted sample_archive"
    by (simp add: sample_env_def)
  have r3: "urlretrieve (sample_env [] 0 (ExtractFailed no_files))
      (''https://www.sharelatex.com/project/'' @ ''abc123'' @ ''/download/zip'') = Reply (Some ''PK'')"
    by (simp add: sample_env_def)
  have u3: "unzip (sample_env [] 0 (ExtractFailed no_files)) ''PK'' = ExtractFailed no_files"
    by (simp add: sample_env_def)
  from fetch_removes_downloaded_archive [OF r1, where part = no_files and skip = False
      and w = "start no_files"] u1
    fetch_removes_downloaded_archive [OF r2, where entries = sample_archive and skip = True
      and w = "start no_files"] u2
    fetch_removes_downloaded_archive [OF r3, where part = no_files and skip = True
      and w = "start no_files"] u3
  show ?thesis by blast
qed

section \<open>The claim about the state file\<close>

text \<open>
  Claim C2, as stated, says that the state file is overwritten at the end of every run, also
  when a requested push fails. \<open>git_push\<close> runs the push through \<open>run_cmd\<close> without
  \<open>allow_fail\<close>: a push that exits with status 1 ends the run with a fatal error, and the
  state file, absent before, is still absent.
\<close>

theorem state_file_after_failed_push_counterexample:
  "fst (go (sample_env [] 1 (Extracted sample_archive)) (Some ''abc123'') [] True False False
         (start no_files)) = Fatal
   \<and> files (snd (go (sample_env [] 1 (Extracted sample_archive)) (Some ''abc123'') [] True False
         False (start no_files))) state_file = None"
  by code_simp

text \<open>
  Claim C2, amended: every run of the main flow that reaches its end, whether or not changes
  were committed or pushed, finishes by writing the state file with the identifier that
  \<open>determine_id\<close> chose for the run, followed by a line feed; when the file cannot be opened
  for writing, the warning is logged instead.
\<close>

theorem state_file_written_when_run_completes:
  assumes "go e ident message push sharelatex_push_flag dont_commit w = (Return u, w')"
  shows "\<exists>i w1. determine_id e ident w = (Return i, w1)
           \<and> (can_write e state_file \<longrightarrow> files w' state_file = Some (i @ [CHR 0x0A]))
           \<and> (\<not> can_write e state_file \<longrightarrow> Warn ProblemCreatingStateFile \<in> set (trace w'))"
proof -
  from assms obtain i w1 w6 where d: "determine_id e ident w = (Return i, w1)"
    and wr: "write_saved_sharelatex_document e i w6 = (Return u, w')"
    unfolding go_def bind_Return_iff by blast
  from wr have "(can_write e state_file \<longrightarrow> files w' state_file = Some (i @ [CHR 0x0A]))
      \<and> (\<not> can_write e state_file \<longrightarrow> Warn ProblemCreatingStateFile \<in> set (trace w'))"
    by (auto simp: write_saved_sharelatex_document_def emit_def split: if_splits)
  with d show ?thesis by blast
qed

text \<open>
  The amended claim on the sample run with a push that succeeds: the state file holds the
  identifier of the run.
\<close>

theorem state_file_written_when_run_completes_witness:
  "fst (go (sample_env [] 0 (Extracted sample_archive)) (Some ''abc123'') [] True False False
         (start no_files)) = Return ()
   \<and> files (snd (go (sample_env [] 0 (Extracted sample_archive)) (Some ''abc123'') [] True False
         False (start no_files))) state_file = Some (''abc123'' @ [CHR 0x0A])"
proof -
  let ?e = "sample_env [] 0 (Extracted sample_archive)"
  let ?r = "go ?e (Some ''abc123'') [] True False False (start no_files)"
  have r: "fst ?r = Return ()"
    by code_simp
  then have run: "?r = (Return (), snd ?r)"
    by (simp add: prod_eq_iff)
  have d: "fst (determine_id ?e (Some ''abc123'') (start no_files)) = Return ''abc123''"
    by code_simp
  have cw: "can_write ?e state_file"
    by (simp add: sample_env_def)
  from state_file_written_when_run_completes [OF run] d cw
  have "files (snd ?r) state_file = Some (''abc123'' @ [CHR 0x0A])"
    by auto
  with r show ?thesis by simp
qed

section \<open>The claim about identifier resolution\<close>

text \<open>
  Claim C10: for every identifier \<open>I\<close>, resolving with \<open>I\<close> supplied and nothing persisted
  returns \<open>I\<close>, and resolving with nothing supplied and \<open>I\<close> persisted (the state file as
  \<open>write_saved_sharelatex_document\<close> leaves it) returns \<open>I\<close>. In both cases the world is
  unchanged: nothing is printed and no answer is read. Nothing persisted covers a missing
  file and a file whose first line is blank; nothing supplied covers \<open>None\<close> and the empty
  string.
\<close>

theorem determine_id_single_source:
  assumes "is_identifier I"
  shows "(\<not> truthy (read_saved_sharelatex_document w) \<longrightarrow> determine_id e (Some I) w = (Return I, w))
       \<and> (\<not> truthy ident \<and> files w state_file = Some (I @ [CHR 0x0A])
            \<longrightarrow> determine_id e ident w = (Return I, w))"
proof -
  from assms have ne: "I \<noteq> []" by (simp add: is_identifier_def)
  have saved: "files w state_file = Some (I @ [CHR 0x0A]) \<Longrightarrow> read_saved_sharelatex_document w = Some I"
    by (simp add: read_saved_sharelatex_document_def strip_line_of_identifier [OF assms])
  show ?thesis
    using ne saved by (auto simp: determine_id_def Let_def truthy_def)
qed

text \<open>
  Claim C10 on the identifier \<open>abc123\<close>: supplied with an empty working directory, and
  persisted with nothing supplied.
\<close>

theorem determine_id_single_source_witness:
  "determine_id (sample_env [] 0 (Extracted sample_archive)) (Some ''abc123'') (start no_files)
     = (Return ''abc123'', start no_files)
   \<and> determine_id (sample_env [] 0 (Extracted sample_archive)) None (start sample_saved)
     = (Return ''abc123'', start sample_saved)"
proof -
  have i: "is_identifier ''abc123''"
    by (simp add: is_identifier_def is_alnum_def)
  have a: "\<not> truthy (read_saved_sharelatex_document (start no_files))"
    by (simp add: read_saved_sharelatex_document_def start_def no_files_def truthy_def)
  have b: "\<not> truthy None"
    by (simp add: truthy_def)
  have c: "files (start sample_saved) state_file = Some (''abc123'' @ [CHR 0x0A])"
    by (simp add: start_def sample_saved_def state_file_def)
  from determine_id_single_source [OF i, where w = "start no_files"] a
    determine_id_single_source [OF i, where w = "start sample_saved" and ident = None] b c
  show ?thesis by blast
qed
section \<open>The claim about the commit message\<close>




section \<open>The claim about change detection\<close>

text \<open>
  Claim C7, as stated, says that every output of the scoped status query without the phrase
  is reported as changes present. A status query that exits with a non-zero status is
  fatal in \<open>run_cmd\<close>, whatever it printed: with the output \<open>fatal: unable to read tree\<close>
  and the exit status 128, the output does not hold the phrase, and change detection
  reports nothing, the process ends.
\<close>

theorem changes_reported_for_failed_status_counterexample:
  "\<not> contains clean_phrase (lower failed_status_output)
   \<and> fst (files_changed (status_env (Reply (128, Utf8 failed_status_output))) (start no_files))
       = Fatal"
  by code_simp

text \<open>
  Claim C7, amended: when the scoped status query exits with status 0 and its output is
  UTF-8, change detection reports changes exactly when the output, lower-cased, does not
  contain the phrase \<open>nothing to commit, working directory clean\<close>, that is when no part of
  the output equals the phrase up to letter case. A query that exits with another status
  is fatal; an output that is not UTF-8 raises an exception that nothing catches; a query
  that never comes back blocks the run. And a run whose scoped status query printed an
  output with the phrase runs no commit command.
\<close>

theorem clean_status_never_commits:
  "(shell e (trace w) ''git status .'' = Reply (0, Utf8 out)
      \<longrightarrow> fst (files_changed e w) = Return (status_says_changed out))
   \<and> (status_says_changed out
        \<longleftrightarrow> \<not> (\<exists>pre mid suf. out = pre @ mid @ suf \<and> lower mid = clean_phrase))
   \<and> (shell e (trace w) ''git status .'' = Reply (st, b) \<and> st \<noteq> 0
      \<longrightarrow> fst (files_changed e w) = Fatal)
   \<and> (shell e (trace w) ''git status .'' = Reply (0, NotUtf8)
      \<longrightarrow> fst (files_changed e w) = Crash)
   \<and> (shell e (trace w) ''git status .'' = NoReply
      \<longrightarrow> fst (files_changed e w) = Hang)
   \<and> (Cmd ''git status .'' st (Utf8 out)
          \<in> set (trace (snd (go e ident message push sharelatex_push_flag dont_commit (start fs))))
        \<and> \<not> status_says_changed out
      \<longrightarrow> (\<forall>ev \<in> set (trace (snd (go e ident message push sharelatex_push_flag dont_commit
                 (start fs)))). \<not> is_commit ev))"
proof (intro conjI impI)
  assume "shell e (trace w) ''git status .'' = Reply (0, Utf8 out)"
  then show "fst (files_changed e w) = Return (status_says_changed out)"
    by (simp add: files_changed_def run_cmd_def bind_def decode_utf8_def)
next
  show "status_says_changed out
        \<longleftrightarrow> \<not> (\<exists>pre mid suf. out = pre @ mid @ suf \<and> lower mid = clean_phrase)"
    by (rule status_says_changed_iff)
next
  assume "shell e (trace w) ''git status .'' = Reply (st, b) \<and> st \<noteq> 0"
  then show "fst (files_changed e w) = Fatal"
    by (simp add: files_changed_def run_cmd_def bind_def fatal_error_def)
next
  assume "shell e (trace w) ''git status .'' = Reply (0, NotUtf8)"
  then show "fst (files_changed e w) = Crash"
    by (simp add: files_changed_def run_cmd_def bind_def decode_utf8_def)
next
  assume "shell e (trace w) ''git status .'' = NoReply"
  then show "fst (files_changed e w) = Hang"
    by (simp add: files_changed_def run_cmd_def bind_def)
next
  let ?tr = "trace (snd (go e ident message push sharelatex_push_flag dont_commit (start fs)))"
  assume a: "Cmd ''git status .'' st (Utf8 out) \<in> set ?tr \<and> \<not> status_says_changed out"
  then have "clean_status (Cmd ''git status .'' st (Utf8 out))"
    by (simp add: clean_status_def)
  with a have "list_ex clean_status ?tr"
    unfolding list_ex_iff by blast
  with go_consistent [of e ident message push sharelatex_push_flag dont_commit fs]
  show "\<forall>ev \<in> set ?tr. \<not> is_commit ev"
    by (auto simp: consistent_def list_ex_iff)
qed

text \<open>
  The amended claim on sample runs. With a status query that prints the phrase with a
  capital letter, change detection reports no changes and no command of the run is a
  commit. With a status query that exits with status 128, that prints bytes that are not
  UTF-8, or that never comes back, change detection ends fatally, raises, or blocks.
\<close>

theorem clean_status_never_commits_witness:
  "fst (files_changed (sample_env clean_output 0 (Extracted sample_archive)) (start no_files))
     = Return False
   \<and> Cmd ''git status .'' 0 (Utf8 clean_output)
        \<in> set (trace (snd (go (sample_env clean_output 0 (Extracted sample_archive))
              (Some ''abc123'') [] True False False (start no_files))))
   \<and> \<not> status_says_changed clean_output
   \<and> list_all (\<lambda>ev. \<not> is_commit ev)
        (trace (snd (go (sample_env clean_output 0 (Extracted sample_archive))
              (Some ''abc123'') [] True False False (start no_files))))
   \<and> fst (files_changed (status_env (Reply (128, Utf8 failed_status_output))) (start no_files))
       = Fatal
   \<and> fst (files_changed (status_env (Reply (0, NotUtf8))) (start no_files)) = Crash
   \<and> fst (files_changed (status_env NoReply) (start no_files)) = Hang"
proof -
  let ?e = "sample_env clean_output 0 (Extracted sample_archive)"
  have sh: "shell ?e (trace (start no_files)) ''git status .'' = Reply (0, Utf8 clean_output)"
    by (simp add: sample_env_def sample_shell_def)
  have mem: "Cmd ''git status .'' 0 (Utf8 clean_output)
      \<in> set (trace (snd (go ?e (Some ''abc123'') [] True False False (start no_files))))"
    by code_simp
  have cl: "\<not> status_says_changed clean_output"
    by code_simp
  have s1: "shell (status_env r) (trace (start no_files)) ''git status .'' = r" for r
    by (simp add: status_env_def)
  have n: "(128 :: int) \<noteq> 0"
    by simp
  from clean_status_never_commits [where e = ?e and w = "start no_files" and out = clean_output
      and st = 0 and ident = "Some ''abc123''" and message = "[]" and push = True
      and sharelatex_push_flag = False and dont_commit = False and fs = no_files] sh mem cl
  have a: "fst (files_changed ?e (start no_files)) = Return False
      \<and> list_all (\<lambda>ev. \<not> is_commit ev)
          (trace (snd (go ?e (Some ''abc123'') [] True False False (start no_files))))"
    by (simp add: list_all_iff)
  from clean_status_never_commits [where e = "status_env (Reply (128, Utf8 failed_status_output))"
      and w = "start no_files" and st = 128 and b = "Utf8 failed_status_output"] s1 n
  have b: "fst (files_changed (status_env (Reply (128, Utf8 failed_status_output))) (start no_files))
      = Fatal"
    by blast
  from clean_status_never_commits [where e = "status_env (Reply (0, NotUtf8))"
      and w = "start no_files"] s1
  have c: "fst (files_changed (status_env (Reply (0, NotUtf8))) (start no_files)) = Crash"
    by blast
  from clean_status_never_commits [where e = "status_env NoReply" and w = "start no_files"] s1
  have d: "fst (files_changed (status_env NoReply) (start no_files)) = Hang"
    by blast
  from a b c d mem cl show ?thesis
    by blast
qed

end
